theory Spec2Isabelle
  imports Complex_Main
begin

section \<open>Peak detection of spikeinterface (sortingcomponents/peak_detection.py)\<close>

text \<open>
  The first part of this theory is a model of the module: the three detection methods
  (by channel, locally exclusive with its numba loops, locally exclusive on an OpenCL
  device with its kernel), their \<open>check_params\<close>, the chunk worker
  \<open>_detect_peaks_chunk\<close> and \<open>detect_peaks\<close>. The second part proves properties of the
  model, and the last part states the claims of the specification about it.
\<close>

text \<open>
  A trace block is a two-dimensional array, samples by channels. It is modelled as the
  list of its rows, one row per sample, each row holding one value per channel. Sample
  values and thresholds are reals, and the detection rules only compare them. The two
  places where the source computes on doubles, the thresholds and the exclusion
  window of \<open>check_params\<close>, take the rounded operations of the machine as a
  parameter (\<open>float_unit\<close> below). The conversion of traces and thresholds to
  32-bit floats in the OpenCL variant is not modelled. A boolean mask is a list of
  rows of booleans of the same shape.
\<close>

type_synonym traces = "real list list"
type_synonym mask = "bool list list"

datatype error =
  AssertionError | ModuleNotFoundError | KeyError | ValueError | UnboundLocalError | IndexError
| OpenCLError

subsection \<open>Python slices and numpy element-wise operations\<close>

text \<open>
  \<open>py_bound\<close> normalises one bound of a Python slice \<open>xs[a:b]\<close> on a sequence of
  length \<open>n\<close>: a negative bound counts from the end, and every bound is clipped to
  \<open>0..n\<close>. The slice is empty when the upper bound is not above the lower one; in
  particular \<open>xs[0:-0]\<close> is \<open>xs[0:0]\<close>, the empty slice.
\<close>

definition py_bound :: "int \<Rightarrow> nat \<Rightarrow> nat" where
  "py_bound k n = (if k < 0 then nat (max 0 (k + int n)) else min (nat k) n)"

definition py_slice :: "int \<Rightarrow> int \<Rightarrow> 'a list \<Rightarrow> 'a list" where
  "py_slice a b xs =
     (let lo = py_bound a (length xs); hi = py_bound b (length xs)
      in take (hi - lo) (drop lo xs))"

text \<open>\<open>a > b\<close>, \<open>a >= b\<close>, ... on two arrays of the same shape.\<close>

definition cmp2 :: "(real \<Rightarrow> real \<Rightarrow> bool) \<Rightarrow> traces \<Rightarrow> traces \<Rightarrow> mask" where
  "cmp2 r a b = map2 (\<lambda>ra rb. map2 r ra rb) a b"

text \<open>\<open>a > thr[None, :]\<close>: every row of \<open>a\<close> against the per-channel vector.\<close>

definition cmp_thr :: "(real \<Rightarrow> real \<Rightarrow> bool) \<Rightarrow> traces \<Rightarrow> real list \<Rightarrow> mask" where
  "cmp_thr r a thr = map (\<lambda>row. map2 r row thr) a"

definition mask_and :: "mask \<Rightarrow> mask \<Rightarrow> mask" where
  "mask_and p q = map2 (\<lambda>rp rq. map2 (\<and>) rp rq) p q"

definition mask_or :: "mask \<Rightarrow> mask \<Rightarrow> mask" where
  "mask_or p q = map2 (\<lambda>rp rq. map2 (\<or>) rp rq) p q"

text \<open>
  \<open>np.nonzero\<close> of a two-dimensional mask: the coordinates of the true entries in
  row-major order. The source receives two parallel index arrays; they are kept
  together as one list of (sample, channel) pairs in the same order.
\<close>

definition nonzero_row :: "nat \<Rightarrow> bool list \<Rightarrow> (nat \<times> nat) list" where
  "nonzero_row s row = map (\<lambda>c. (s, c)) (filter (\<lambda>c. row ! c) [0..<length row])"

definition nonzero :: "mask \<Rightarrow> (nat \<times> nat) list" where
  "nonzero m = concat (map (\<lambda>s. nonzero_row s (m ! s)) [0..<length m])"

text \<open>\<open>peak_sample_ind += k\<close> on the sample indices.\<close>

definition shift_samples :: "int \<Rightarrow> (nat \<times> nat) list \<Rightarrow> (int \<times> nat) list" where
  "shift_samples k ps = map (\<lambda>(s, c). (int s + k, c)) ps"

subsection \<open>DetectPeakByChannel\<close>

text \<open>
  The two loops of \<open>DetectPeakByChannel.detect_peaks\<close>: the mask starts as the threshold
  test on the trimmed block \<open>traces[e:-e]\<close> and is and-ed, for each \<open>i\<close> in
  \<open>range(e)\<close>, with the comparison against the block shifted \<open>e - i\<close> samples to the
  past and \<open>i + 1\<close> samples to the future (\<open>by_channel_sweep\<close> is one iteration,
  for the pair of comparisons of the sign).
\<close>

definition traces_center :: "traces \<Rightarrow> int \<Rightarrow> traces" where
  "traces_center tr e = py_slice e (- e) tr"

definition by_channel_sweep ::
  "(real \<Rightarrow> real \<Rightarrow> bool) \<Rightarrow> (real \<Rightarrow> real \<Rightarrow> bool) \<Rightarrow> traces \<Rightarrow> int \<Rightarrow> nat \<Rightarrow> mask \<Rightarrow> mask" where
  "by_channel_sweep before after tr e i pm =
     (let center = traces_center tr e; len = int (length center)
      in mask_and
           (mask_and pm (cmp2 before center (py_slice (int i) (int i + len) tr)))
           (cmp2 after center (py_slice (e + int i + 1) (e + int i + 1 + len) tr)))"

definition by_channel_mask_pos :: "traces \<Rightarrow> real list \<Rightarrow> int \<Rightarrow> mask" where
  "by_channel_mask_pos tr thr e =
     fold (by_channel_sweep (>) (\<ge>) tr e) [0..<nat e]
       (cmp_thr (>) (traces_center tr e) thr)"

definition by_channel_mask_neg :: "traces \<Rightarrow> real list \<Rightarrow> int \<Rightarrow> mask" where
  "by_channel_mask_neg tr thr e =
     fold (by_channel_sweep (<) (\<le>) tr e) [0..<nat e]
       (cmp_thr (<) (traces_center tr e) (map uminus thr))"

text \<open>
  \<open>peak_sign\<close> is a string. With a value outside \<open>pos\<close>, \<open>neg\<close>, \<open>both\<close> no branch
  assigns \<open>peak_mask\<close> and \<open>np.nonzero(peak_mask)\<close> raises \<open>UnboundLocalError\<close>.
\<close>

definition select_mask :: "string \<Rightarrow> mask \<Rightarrow> mask \<Rightarrow> error + mask" where
  "select_mask peak_sign pos neg =
     (if peak_sign = ''pos'' then Inr pos
      else if peak_sign = ''neg'' then Inr neg
      else if peak_sign = ''both'' then Inr (mask_or neg pos)
      else Inl UnboundLocalError)"

definition by_channel_detect_peaks ::
  "traces \<Rightarrow> string \<Rightarrow> real list \<Rightarrow> int \<Rightarrow> error + (int \<times> nat) list" where
  "by_channel_detect_peaks tr peak_sign thr e =
     (case select_mask peak_sign (by_channel_mask_pos tr thr e) (by_channel_mask_neg tr thr e) of
        Inl err \<Rightarrow> Inl err
      | Inr pm \<Rightarrow> Inr (shift_samples e (nonzero pm)))"

text \<open>
  A block of \<open>n\<close> samples on \<open>c\<close> channels: \<open>n\<close> rows, each of length \<open>c\<close>. The
  theorems about a trace block take this as the shape of their input; a threshold
  vector that does not have one entry per channel makes numpy broadcast or raise.
\<close>

definition shape_ok :: "nat \<Rightarrow> nat \<Rightarrow> 'a list list \<Rightarrow> bool" where
  "shape_ok n c m = (length m = n \<and> (\<forall>row \<in> set m. length row = c))"

text \<open>
  The order of the records of an index array: ascending sample index and, for equal
  sample indices, ascending channel index.
\<close>

definition peak_before :: "('a::linorder \<times> nat) \<Rightarrow> ('a \<times> nat) \<Rightarrow> bool" where
  "peak_before p q = (fst p < fst q \<or> (fst p = fst q \<and> snd p < snd q))"

text \<open>
  The detection rule of the by-channel method as the specification words it, on the
  samples of the block itself: sample \<open>s\<close> of channel \<open>c\<close> is above the threshold,
  strictly above the \<open>e\<close> samples before it and not below the \<open>e\<close> samples after it
  (and the mirrored rule for negative peaks).
\<close>

definition spec_peak_pos :: "traces \<Rightarrow> real list \<Rightarrow> nat \<Rightarrow> nat \<Rightarrow> nat \<Rightarrow> bool" where
  "spec_peak_pos tr thr e s c =
     (tr ! s ! c > thr ! c \<and>
      (\<forall>i \<in> {1..e}. tr ! s ! c > tr ! (s - i) ! c \<and> tr ! s ! c \<ge> tr ! (s + i) ! c))"

definition spec_peak_neg :: "traces \<Rightarrow> real list \<Rightarrow> nat \<Rightarrow> nat \<Rightarrow> nat \<Rightarrow> bool" where
  "spec_peak_neg tr thr e s c =
     (tr ! s ! c < - (thr ! c) \<and>
      (\<forall>i \<in> {1..e}. tr ! s ! c < tr ! (s - i) ! c \<and> tr ! s ! c \<le> tr ! (s + i) ! c))"

text \<open>
  The polarity of a reported pair: it is a positive peak when the mask of the positive
  rule holds it, a negative peak when the mask of the negative rule does. With
  \<open>peak_sign = 'both'\<close> the method reports the pairs of either mask. Two pairs are of
  the same polarity when both are positive peaks or both are negative peaks.
\<close>

definition positive_peaks :: "traces \<Rightarrow> real list \<Rightarrow> int \<Rightarrow> (int \<times> nat) list" where
  "positive_peaks tr thr e = shift_samples e (nonzero (by_channel_mask_pos tr thr e))"

definition negative_peaks :: "traces \<Rightarrow> real list \<Rightarrow> int \<Rightarrow> (int \<times> nat) list" where
  "negative_peaks tr thr e = shift_samples e (nonzero (by_channel_mask_neg tr thr e))"

definition same_polarity ::
  "traces \<Rightarrow> real list \<Rightarrow> int \<Rightarrow> (int \<times> nat) \<Rightarrow> (int \<times> nat) \<Rightarrow> bool" where
  "same_polarity tr thr e p q =
     ((p \<in> set (positive_peaks tr thr e) \<and> q \<in> set (positive_peaks tr thr e)) \<or>
      (p \<in> set (negative_peaks tr thr e) \<and> q \<in> set (negative_peaks tr thr e)))"

subsection \<open>DetectPeakLocallyExclusive\<close>

text \<open>
  \<open>_numba_detect_peak_pos\<close> and \<open>_numba_detect_peak_neg\<close> are the same four nested
  loops and differ in the comparisons only: the strict one (\<open>>\<close> for \<open>pos\<close>, \<open><\<close> for
  \<open>neg\<close>) against the samples before, the other one (\<open>>=\<close>, \<open><=\<close>) against the
  samples after and against the neighbour at the same sample. The model takes the two
  comparisons as arguments. The arguments \<open>abs_threholds\<close> and \<open>peak_sign\<close> of the
  source functions are not used by them and are left out.

  The innermost loop, \<open>for i in range(exclude_sweep_size)\<close>, on the entry
  \<open>peak_mask[s, chan_ind]\<close>; it stops at the first \<open>i\<close> that clears the entry.
\<close>

fun numba_sweep_loop ::
  "(real \<Rightarrow> real \<Rightarrow> bool) \<Rightarrow> (real \<Rightarrow> real \<Rightarrow> bool) \<Rightarrow> traces \<Rightarrow> traces \<Rightarrow> nat \<Rightarrow>
   nat \<Rightarrow> nat \<Rightarrow> nat \<Rightarrow> nat list \<Rightarrow> bool \<Rightarrow> bool" where
  "numba_sweep_loop strict weak tr ctr e s chan_ind neighbour [] pm = pm"
| "numba_sweep_loop strict weak tr ctr e s chan_ind neighbour (i # rest) pm =
     (let pm1 = (if chan_ind \<noteq> neighbour
                 then pm \<and> weak (ctr ! s ! chan_ind) (ctr ! s ! neighbour) else pm);
          pm2 = (pm1 \<and> strict (ctr ! s ! chan_ind) (tr ! (s + i) ! neighbour));
          pm3 = (pm2 \<and> weak (ctr ! s ! chan_ind) (tr ! (e + s + i + 1) ! neighbour))
      in if \<not> pm3 then pm3
         else numba_sweep_loop strict weak tr ctr e s chan_ind neighbour rest pm3)"

text \<open>
  The loop \<open>for neighbour in range(num_chans)\<close>: channels outside the neighbourhood of
  \<open>chan_ind\<close> are skipped, and the loop stops once the entry is cleared.
\<close>

fun numba_neighbour_loop ::
  "(real \<Rightarrow> real \<Rightarrow> bool) \<Rightarrow> (real \<Rightarrow> real \<Rightarrow> bool) \<Rightarrow> traces \<Rightarrow> traces \<Rightarrow> nat \<Rightarrow>
   mask \<Rightarrow> nat \<Rightarrow> nat \<Rightarrow> nat list \<Rightarrow> bool \<Rightarrow> bool" where
  "numba_neighbour_loop strict weak tr ctr e nbm s chan_ind [] pm = pm"
| "numba_neighbour_loop strict weak tr ctr e nbm s chan_ind (neighbour # rest) pm =
     (if \<not> nbm ! chan_ind ! neighbour
      then numba_neighbour_loop strict weak tr ctr e nbm s chan_ind rest pm
      else let pm' = numba_sweep_loop strict weak tr ctr e s chan_ind neighbour [0..<e] pm
           in if \<not> pm' then pm'
              else numba_neighbour_loop strict weak tr ctr e nbm s chan_ind rest pm')"

text \<open>\<open>peak_mask[s, chan_ind] = v\<close>.\<close>

definition mask_set :: "mask \<Rightarrow> nat \<Rightarrow> nat \<Rightarrow> bool \<Rightarrow> mask" where
  "mask_set pm s c v = pm[s := (pm ! s)[c := v]]"

text \<open>
  The number of columns of a two-dimensional array (\<open>traces_center.shape[1]\<close>). A block
  without rows has lost its channel count in this representation; the loops over its
  samples then run zero times.
\<close>

definition ncols :: "'a list list \<Rightarrow> nat" where
  "ncols m = (case m of [] \<Rightarrow> 0 | row # _ \<Rightarrow> length row)"

text \<open>
  The two outer loops, over the channels and over the samples of the trimmed block;
  an entry that is already false is skipped (\<open>continue\<close>).
\<close>

definition numba_sample_step ::
  "(real \<Rightarrow> real \<Rightarrow> bool) \<Rightarrow> (real \<Rightarrow> real \<Rightarrow> bool) \<Rightarrow> traces \<Rightarrow> traces \<Rightarrow> nat \<Rightarrow>
   mask \<Rightarrow> nat \<Rightarrow> nat \<Rightarrow> nat \<Rightarrow> mask \<Rightarrow> mask" where
  "numba_sample_step strict weak tr ctr e nbm num_chans chan_ind s pm =
     (if \<not> pm ! s ! chan_ind then pm
      else mask_set pm s chan_ind
             (numba_neighbour_loop strict weak tr ctr e nbm s chan_ind [0..<num_chans]
                (pm ! s ! chan_ind)))"

definition numba_detect_peak ::
  "(real \<Rightarrow> real \<Rightarrow> bool) \<Rightarrow> (real \<Rightarrow> real \<Rightarrow> bool) \<Rightarrow> traces \<Rightarrow> traces \<Rightarrow> mask \<Rightarrow> int \<Rightarrow>
   mask \<Rightarrow> mask" where
  "numba_detect_peak strict weak tr ctr peak_mask e nbm =
     (let num_chans = ncols ctr
      in fold (\<lambda>chan_ind pm.
                 fold (numba_sample_step strict weak tr ctr (nat e) nbm num_chans chan_ind)
                   [0..<length peak_mask] pm)
           [0..<num_chans] peak_mask)"

definition numba_detect_peak_pos :: "traces \<Rightarrow> traces \<Rightarrow> mask \<Rightarrow> int \<Rightarrow> mask \<Rightarrow> mask" where
  "numba_detect_peak_pos = numba_detect_peak (>) (\<ge>)"

definition numba_detect_peak_neg :: "traces \<Rightarrow> traces \<Rightarrow> mask \<Rightarrow> int \<Rightarrow> mask \<Rightarrow> mask" where
  "numba_detect_peak_neg = numba_detect_peak (<) (\<le>)"

text \<open>
  \<open>DetectPeakLocallyExclusive.detect_peaks\<close>. \<open>have_numba\<close> is the module flag
  \<open>HAVE_NUMBA\<close>, asserted on entry.
\<close>

definition locally_exclusive_mask_pos :: "traces \<Rightarrow> real list \<Rightarrow> int \<Rightarrow> mask \<Rightarrow> mask" where
  "locally_exclusive_mask_pos tr thr e nbm =
     numba_detect_peak_pos tr (traces_center tr e) (cmp_thr (>) (traces_center tr e) thr) e nbm"

definition locally_exclusive_mask_neg :: "traces \<Rightarrow> real list \<Rightarrow> int \<Rightarrow> mask \<Rightarrow> mask" where
  "locally_exclusive_mask_neg tr thr e nbm =
     numba_detect_peak_neg tr (traces_center tr e)
       (cmp_thr (<) (traces_center tr e) (map uminus thr)) e nbm"

definition locally_exclusive_detect_peaks ::
  "bool \<Rightarrow> traces \<Rightarrow> string \<Rightarrow> real list \<Rightarrow> int \<Rightarrow> mask \<Rightarrow> error + (int \<times> nat) list" where
  "locally_exclusive_detect_peaks have_numba tr peak_sign thr e nbm =
     (if \<not> have_numba then Inl AssertionError
      else case select_mask peak_sign (locally_exclusive_mask_pos tr thr e nbm)
                  (locally_exclusive_mask_neg tr thr e nbm) of
             Inl err \<Rightarrow> Inl err
           | Inr pm \<Rightarrow> Inr (shift_samples e (nonzero pm)))"

text \<open>
  The spatial rule of the locally exclusive method as the specification words it (for
  \<open>pos\<close>; \<open>neg\<close> mirrors it): against every neighbour \<open>n\<close> of channel \<open>c\<close>, the sample
  is strictly above the \<open>e\<close> samples of \<open>n\<close> before it, not below the \<open>e\<close> samples of
  \<open>n\<close> after it and, when \<open>n\<close> is another channel, not below \<open>n\<close> at the same sample.
\<close>

definition spec_local_pos :: "traces \<Rightarrow> mask \<Rightarrow> nat \<Rightarrow> nat \<Rightarrow> nat \<Rightarrow> nat \<Rightarrow> bool" where
  "spec_local_pos tr nbm num_chans e s c =
     (\<forall>n \<in> {0..<num_chans}. nbm ! c ! n \<longrightarrow>
        (\<forall>i \<in> {1..e}. tr ! s ! c > tr ! (s - i) ! n \<and> tr ! s ! c \<ge> tr ! (s + i) ! n) \<and>
        (n \<noteq> c \<longrightarrow> tr ! s ! c \<ge> tr ! s ! n))"

definition spec_local_neg :: "traces \<Rightarrow> mask \<Rightarrow> nat \<Rightarrow> nat \<Rightarrow> nat \<Rightarrow> nat \<Rightarrow> bool" where
  "spec_local_neg tr nbm num_chans e s c =
     (\<forall>n \<in> {0..<num_chans}. nbm ! c ! n \<longrightarrow>
        (\<forall>i \<in> {1..e}. tr ! s ! c < tr ! (s - i) ! n \<and> tr ! s ! c \<le> tr ! (s + i) ! n) \<and>
        (n \<noteq> c \<longrightarrow> tr ! s ! c \<le> tr ! s ! n))"

text \<open>
  Row \<open>t\<close> of a block is one of the rows kept by \<open>traces[e:-e]\<close>: these are the samples
  on which the threshold test is made (the candidates).
\<close>

definition in_center :: "traces \<Rightarrow> int \<Rightarrow> nat \<Rightarrow> bool" where
  "in_center tr e t = (nat e \<le> t \<and> t - nat e < length (traces_center tr e))"

subsection \<open>DetectPeakLocallyExclusiveOpenCL\<close>

text \<open>
  The state of an \<open>OpenCLDetectPeakExecutor\<close> that matters for its results: the
  parameters given to \<open>__init__\<close>, the chunk size the buffers were made for (\<open>None\<close>
  before the first call) and the value of the macro \<open>peak_sign\<close> the kernel was compiled
  with. The neighbour mask is stored as bytes (\<open>astype('uint8')\<close>). The device, its
  context and queue are taken to exist; the buffers hold what is copied into them.
\<close>

record executor =
  ex_abs_threholds :: "real list"
  ex_exclude_sweep_size :: int
  ex_neighbours_mask :: "nat list list"
  ex_peak_sign :: string
  ex_chunk_size :: "nat option"
  ex_kernel_peak_sign :: int

text \<open>\<open>__init__\<close> imports pyopencl first; \<open>have_pyopencl\<close> says whether it is installed.\<close>

definition executor_init ::
  "bool \<Rightarrow> real list \<Rightarrow> int \<Rightarrow> mask \<Rightarrow> string \<Rightarrow> error + executor" where
  "executor_init have_pyopencl abs_threholds exclude_sweep_size neighbours_mask peak_sign =
     (if \<not> have_pyopencl then Inl ModuleNotFoundError
      else Inr \<lparr>ex_abs_threholds = abs_threholds,
                ex_exclude_sweep_size = exclude_sweep_size,
                ex_neighbours_mask = map (map (\<lambda>b. if b then 1 else 0)) neighbours_mask,
                ex_peak_sign = peak_sign,
                ex_chunk_size = None,
                ex_kernel_peak_sign = 0\<rparr>)"

text \<open>
  \<open>create_buffers_and_compile\<close>. The buffers are made first: the neighbour mask and
  the thresholds are copied to the device and the trace buffer is allocated with
  \<open>chunk_size * num_channels * 4\<close> bytes. \<open>pyopencl.Buffer\<close> refuses a buffer of size
  zero, so a mask or a threshold vector without entries, or a block without rows, ends
  the call with an error of the OpenCL library. After the buffers the macro
  \<open>peak_sign\<close> of the kernel is looked up in the dictionary \<open>{'pos': 1, 'neg': -1}\<close>;
  any other sign raises \<open>KeyError\<close>.
\<close>

definition kernel_sign_table :: "string \<rightharpoonup> int" where
  "kernel_sign_table = [''pos'' \<mapsto> 1, ''neg'' \<mapsto> - 1]"

definition create_buffers_and_compile :: "executor \<Rightarrow> nat \<Rightarrow> error + executor" where
  "create_buffers_and_compile ex chunk_size =
     (let num_channels = length (ex_neighbours_mask ex)
      in if num_channels = 0 \<or> ex_abs_threholds ex = [] \<or> chunk_size * num_channels = 0
         then Inl OpenCLError
         else case kernel_sign_table (ex_peak_sign ex) of
                None \<Rightarrow> Inl KeyError
              | Some k \<Rightarrow> Inr (ex\<lparr>ex_chunk_size := Some chunk_size, ex_kernel_peak_sign := k\<rparr>))"

text \<open>
  The kernel \<open>detect_peaks\<close> of \<open>processor_kernel\<close>. The traces are one flat buffer in
  row-major order, entry \<open>(row, chan)\<close> at index \<open>row * num_channels + chan\<close>; the
  neighbour mask likewise. \<open>ksign\<close> is the macro \<open>peak_sign\<close>, \<open>e\<close> the macro
  \<open>exclude_sweep_size\<close>.

  The loop \<open>for (int i=1; i<=exclude_sweep_size; i++)\<close> for one neighbour, with the
  comparisons of the sign; it stops when \<open>peak\<close> becomes 0.
\<close>

fun kernel_sweep_loop ::
  "(real \<Rightarrow> real \<Rightarrow> bool) \<Rightarrow> (real \<Rightarrow> real \<Rightarrow> bool) \<Rightarrow> real list \<Rightarrow> nat \<Rightarrow> nat \<Rightarrow> nat \<Rightarrow>
   real \<Rightarrow> nat \<Rightarrow> nat list \<Rightarrow> bool \<Rightarrow> bool" where
  "kernel_sweep_loop strict weak traces num_channels e pos v chan_neigh [] peak = peak"
| "kernel_sweep_loop strict weak traces num_channels e pos v chan_neigh (i # rest) peak =
     (let peak' = (peak \<and> strict v (traces ! ((pos + e - i) * num_channels + chan_neigh))
                       \<and> weak v (traces ! ((pos + e + i) * num_channels + chan_neigh)))
      in if \<not> peak' then peak'
         else kernel_sweep_loop strict weak traces num_channels e pos v chan_neigh rest peak')"

text \<open>
  The loop over \<open>chan_neigh\<close>: a channel that is no neighbour is skipped; the comparison
  at the same sample comes first and leaves the loop when it fails; a failure inside
  the window loop leaves only that loop, and the next neighbour then fails the first
  comparison.
\<close>

fun kernel_neighbour_loop ::
  "int \<Rightarrow> real list \<Rightarrow> nat list \<Rightarrow> nat \<Rightarrow> nat \<Rightarrow> nat \<Rightarrow> nat \<Rightarrow> real \<Rightarrow> nat list \<Rightarrow> bool \<Rightarrow> bool" where
  "kernel_neighbour_loop ksign traces nm num_channels e pos chan v [] peak = peak"
| "kernel_neighbour_loop ksign traces nm num_channels e pos chan v (chan_neigh # rest) peak =
     (if nm ! (chan * num_channels + chan_neigh) = 0
      then kernel_neighbour_loop ksign traces nm num_channels e pos chan v rest peak
      else
        let index = (pos + e) * num_channels + chan_neigh;
            peak1 = (if ksign = 1 then peak \<and> v \<ge> traces ! index
                     else if ksign = - 1 then peak \<and> v \<le> traces ! index
                     else peak)
        in if \<not> peak1 then peak1
           else
             let peak2 =
                   (if ksign = 1
                    then kernel_sweep_loop (>) (\<ge>) traces num_channels e pos v chan_neigh
                           [1..<e + 1] peak1
                    else if ksign = - 1
                    then kernel_sweep_loop (<) (\<le>) traces num_channels e pos v chan_neigh
                           [1..<e + 1] peak1
                    else peak1)
             in kernel_neighbour_loop ksign traces nm num_channels e pos chan v rest peak2)"

text \<open>
  The loop over \<open>chan\<close> of one work item: the threshold test, the neighbour loop, and
  the append of \<open>(pos + exclude_sweep_size, chan)\<close>. The local variable \<open>peak\<close> is
  assigned by the threshold test when the macro is 1 or -1 (the only values the host
  compiles); otherwise it keeps its previous value.
\<close>

fun kernel_channel_loop ::
  "int \<Rightarrow> real list \<Rightarrow> nat list \<Rightarrow> real list \<Rightarrow> nat \<Rightarrow> nat \<Rightarrow> nat \<Rightarrow> nat list \<Rightarrow> bool \<Rightarrow>
   (nat \<times> nat) list" where
  "kernel_channel_loop ksign traces nm thr num_channels e pos [] peak = []"
| "kernel_channel_loop ksign traces nm thr num_channels e pos (chan # rest) peak =
     (let v = traces ! ((pos + e) * num_channels + chan);
          peak0 = (if ksign = 1 then v > thr ! chan
                   else if ksign = - 1 then v < - (thr ! chan)
                   else peak);
          peak1 = (if peak0
                   then kernel_neighbour_loop ksign traces nm num_channels e pos chan v
                          [0..<num_channels] peak0
                   else peak0)
      in (if peak1 then [(pos + e, chan)] else []) @
         kernel_channel_loop ksign traces nm thr num_channels e pos rest peak1)"

text \<open>
  One work item, \<open>pos = get_global_id(0)\<close>: it returns at once when \<open>pos\<close> is not below
  \<open>chunk_size - 2 * exclude_sweep_size\<close>; the result is the list of the records it
  appends, in the order it appends them.
\<close>

definition kernel_work_item ::
  "int \<Rightarrow> real list \<Rightarrow> nat list \<Rightarrow> real list \<Rightarrow> nat \<Rightarrow> nat \<Rightarrow> nat \<Rightarrow> nat \<Rightarrow> (nat \<times> nat) list" where
  "kernel_work_item ksign traces nm thr chunk_size num_channels e pos =
     (if int pos \<ge> int chunk_size - 2 * int e then []
      else kernel_channel_loop ksign traces nm thr num_channels e pos [0..<num_channels] False)"

text \<open>
  The output of the kernel: the counter \<open>num_peaks\<close> and the buffer \<open>peaks\<close> of
  \<open>num_channels * chunk_size\<close> records. An append is
  \<open>i_peak = atomic_inc(num_peaks); peaks[i_peak] = record\<close>.
\<close>

type_synonym device_out = "nat \<times> (nat \<times> nat) list"

definition kernel_append :: "(nat \<times> nat) \<Rightarrow> device_out \<Rightarrow> device_out" where
  "kernel_append r out = (fst out + 1, (snd out)[fst out := r])"

text \<open>
  A work item from its first statement to its last: work item 0 sets the counter to
  zero (\<open>if (pos == 0) *num_peaks = 0\<close>), then the work item appends its records.
\<close>

definition kernel_run_work_item ::
  "int \<Rightarrow> real list \<Rightarrow> nat list \<Rightarrow> real list \<Rightarrow> nat \<Rightarrow> nat \<Rightarrow> nat \<Rightarrow> nat \<Rightarrow>
   device_out \<Rightarrow> device_out" where
  "kernel_run_work_item ksign traces nm thr chunk_size num_channels e pos out =
     fold kernel_append
       (kernel_work_item ksign traces nm thr chunk_size num_channels e pos)
       (if pos = 0 then (0, snd out) else out)"

text \<open>
  The launch of the kernel on \<open>chunk_size - 2 * exclude_sweep_size\<close> work items, from
  what counter and buffer hold when it starts.

  The barrier that follows the reset of the counter holds back the work items of one
  work-group only (the source notes: "this barrier OK if the first group is run
  first"), and the program does not fix the order in which the device runs the work
  items. The model runs them one after the other, each from its first statement to
  its last, in the order \<open>device_order n\<close> gives for \<open>n\<close> work items, a permutation of
  \<open>0..<n\<close>. These are executions the program permits (the device may run every work
  item as a group of its own, one group after the other); executions in which the
  steps of different work items interleave are not modelled, and the runs of the
  kernel below only exhibit what some execution returns. What a work item appends
  before work item 0 has run is lost to the host, because the reset sets the counter
  back and the later records overwrite it.
\<close>

definition valid_device_order :: "(nat \<Rightarrow> nat list) \<Rightarrow> bool" where
  "valid_device_order device_order =
     (\<forall>n. distinct (device_order n) \<and> set (device_order n) = {0..<n})"

definition launch_kernel ::
  "(nat \<Rightarrow> nat list) \<Rightarrow> executor \<Rightarrow> traces \<Rightarrow> device_out \<Rightarrow> device_out" where
  "launch_kernel device_order ex tr out =
     (let num_channels = length (ex_neighbours_mask ex);
          chunk_size = length tr;
          e = nat (ex_exclude_sweep_size ex);
          global_size = nat (int chunk_size - 2 * ex_exclude_sweep_size ex)
      in fold (kernel_run_work_item (ex_kernel_peak_sign ex) (concat tr)
                 (concat (ex_neighbours_mask ex)) (ex_abs_threholds ex)
                 chunk_size num_channels e)
           (device_order global_size) out)"

text \<open>
  The copy to the host: the first \<open>num_peaks\<close> records of the buffer
  (\<open>n = self.num_peaks[0]; peaks = self.peaks[:n]\<close>).
\<close>

definition host_peaks :: "device_out \<Rightarrow> (int \<times> nat) list" where
  "host_peaks out = map (\<lambda>(s, c). (int s, c)) (take (fst out) (snd out))"

text \<open>
  Counter and buffer are made zeroed with the other buffers and keep their contents
  from one launch to the next. A launch in which work item 0 runs returns the records
  appended from the reset on, whatever the buffers held before (lemma
  \<open>launch_kernel_initial_state\<close> below); a launch without work items can only follow
  launches without work items on the same buffers (the chunk size the buffers are made
  for fixes the number of work items). What the host reads after a launch therefore
  does not depend on the launches before it, and \<open>run_kernel\<close> starts each launch
  from the zeroed buffers.
\<close>

definition run_kernel :: "(nat \<Rightarrow> nat list) \<Rightarrow> executor \<Rightarrow> traces \<Rightarrow> (int \<times> nat) list" where
  "run_kernel device_order ex tr =
     host_peaks (launch_kernel device_order ex tr
       (0, replicate (length (ex_neighbours_mask ex) * length tr) (0, 0)))"

text \<open>
  \<open>OpenCLDetectPeakExecutor.detect_peak\<close>: buffers and program are made on the first
  call and again when the number of samples changes; then the kernel is enqueued on
  \<open>chunk_size - 2 * exclude_sweep_size\<close> work items, a number that pyopencl refuses
  when it is negative. The changed executor is returned with the index arrays.
\<close>

definition detect_peak ::
  "(nat \<Rightarrow> nat list) \<Rightarrow> executor \<Rightarrow> traces \<Rightarrow> error + executor \<times> (int \<times> nat) list" where
  "detect_peak device_order ex tr =
     (case (if ex_chunk_size ex = None \<or> ex_chunk_size ex \<noteq> Some (length tr)
            then create_buffers_and_compile ex (length tr) else Inr ex) of
        Inl err \<Rightarrow> Inl err
      | Inr ex' \<Rightarrow>
          if int (length tr) - 2 * ex_exclude_sweep_size ex' < 0 then Inl OpenCLError
          else Inr (ex', run_kernel device_order ex' tr))"

subsection \<open>Parameters: \<open>check_params\<close> of the three methods\<close>

text \<open>
  What the methods read from a recording: the sampling frequency, the number of
  channels and the trace segments. \<open>get_noise_levels\<close> and \<open>get_channel_distances\<close>
  are functions of other modules; their results for the recording are carried as two
  more fields.
\<close>

record recording =
  sampling_frequency :: real
  num_channels :: nat
  recording_segments :: "traces list"
  noise_levels_estimate :: "real list"
  channel_distances :: "real list list"

text \<open>
  The source computes the thresholds and the exclusion window on doubles. The values
  of doubles are reals; the operations of the machine, which round their exact result
  to a double, are a parameter of the model: \<open>fl_mul u x y\<close> is the double the unit \<open>u\<close>
  returns for \<open>x * y\<close> and \<open>fl_div u x y\<close> the one it returns for \<open>x / y\<close>.
  \<open>exact_float_unit\<close> is the unit that never rounds; the unit of a machine returns the
  same doubles whenever the exact product or quotient of its operands is a double.
\<close>

record float_unit =
  fl_mul :: "real \<Rightarrow> real \<Rightarrow> real"
  fl_div :: "real \<Rightarrow> real \<Rightarrow> real"

definition exact_float_unit :: float_unit where
  "exact_float_unit = \<lparr>fl_mul = (\<lambda>x y. x * y), fl_div = (\<lambda>x y. x / y)\<rparr>"

text \<open>Python's \<open>int(x)\<close> on a float: truncation towards zero.\<close>

definition py_int :: "real \<Rightarrow> int" where
  "py_int x = (if 0 \<le> x then \<lfloor>x\<rfloor> else \<lceil>x\<rceil>)"

text \<open>
  \<open>DetectPeakByChannel.check_params\<close>. The assertion on \<open>peak_sign\<close> comes first;
  \<open>noise_levels\<close> is \<open>None\<close> or the levels given by the caller. The thresholds are
  \<open>noise_levels * detect_threshold\<close>, element by element, and the window is
  \<open>int(exclude_sweep_ms * recording.get_sampling_frequency() / 1000.)\<close>: a product and
  a quotient of doubles, then the truncation.
\<close>

definition by_channel_check_params ::
  "float_unit \<Rightarrow> recording \<Rightarrow> string \<Rightarrow> real \<Rightarrow> real \<Rightarrow> real list option \<Rightarrow>
   error + string \<times> real list \<times> int" where
  "by_channel_check_params u recording peak_sign detect_threshold exclude_sweep_ms noise_levels =
     (if peak_sign \<notin> {''both'', ''neg'', ''pos''} then Inl AssertionError
      else
        let noise = (case noise_levels of None \<Rightarrow> noise_levels_estimate recording | Some nl \<Rightarrow> nl);
            abs_threholds = map (\<lambda>x. fl_mul u x detect_threshold) noise;
            exclude_sweep_size =
              py_int (fl_div u (fl_mul u exclude_sweep_ms (sampling_frequency recording)) 1000)
        in Inr (peak_sign, abs_threholds, exclude_sweep_size))"

text \<open>\<open>channel_distance < local_radius_um\<close>, element-wise.\<close>

definition neighbours_of :: "recording \<Rightarrow> real \<Rightarrow> mask" where
  "neighbours_of recording local_radius_um = map (map (\<lambda>d. d < local_radius_um)) (channel_distances recording)"

text \<open>\<open>DetectPeakLocallyExclusive.check_params\<close>: numba is required first.\<close>

definition locally_exclusive_check_params ::
  "float_unit \<Rightarrow> bool \<Rightarrow> recording \<Rightarrow> string \<Rightarrow> real \<Rightarrow> real \<Rightarrow> real \<Rightarrow> real list option \<Rightarrow>
   error + string \<times> real list \<times> int \<times> mask" where
  "locally_exclusive_check_params u have_numba recording peak_sign detect_threshold
       exclude_sweep_ms local_radius_um noise_levels =
     (if \<not> have_numba then Inl ModuleNotFoundError
      else case by_channel_check_params u recording peak_sign detect_threshold exclude_sweep_ms
                  noise_levels of
             Inl err \<Rightarrow> Inl err
           | Inr (sign, abs_threholds, exclude_sweep_size) \<Rightarrow>
               Inr (sign, abs_threholds, exclude_sweep_size, neighbours_of recording local_radius_um))"

text \<open>
  \<open>DetectPeakLocallyExclusiveOpenCL.check_params\<close> repeats the assertion and the
  derivations and builds the executor.
\<close>

definition opencl_check_params ::
  "float_unit \<Rightarrow> bool \<Rightarrow> recording \<Rightarrow> string \<Rightarrow> real \<Rightarrow> real \<Rightarrow> real \<Rightarrow> real list option \<Rightarrow>
   error + executor" where
  "opencl_check_params u have_pyopencl recording peak_sign detect_threshold exclude_sweep_ms
       local_radius_um noise_levels =
     (if peak_sign \<notin> {''both'', ''neg'', ''pos''} then Inl AssertionError
      else
        let noise = (case noise_levels of None \<Rightarrow> noise_levels_estimate recording | Some nl \<Rightarrow> nl);
            abs_threholds = map (\<lambda>x. fl_mul u x detect_threshold) noise;
            exclude_sweep_size =
              py_int (fl_div u (fl_mul u exclude_sweep_ms (sampling_frequency recording)) 1000)
        in executor_init have_pyopencl abs_threholds exclude_sweep_size
             (neighbours_of recording local_radius_um) peak_sign)"

subsection \<open>The registry of methods\<close>

text \<open>
  The arguments \<open>check_params\<close> returns, tagged with the class that made them
  (\<open>detect_peak_methods[method]\<close>), and the keyword arguments of a call of
  \<open>detect_peaks\<close>, with every parameter of the methods present.
\<close>

datatype method_args =
  ByChannelArgs string "real list" int
| LocallyExclusiveArgs string "real list" int mask
| OpenCLArgs executor

record method_kwargs =
  kw_peak_sign :: string
  kw_detect_threshold :: real
  kw_exclude_sweep_ms :: real
  kw_local_radius_um :: real
  kw_noise_levels :: "real list option"

text \<open>
  What lies outside the module and is an argument of the model: whether numba and
  pyopencl can be imported, the order in which the device runs the work items of a
  kernel, the floating-point unit, and the helper \<open>get_chunk_with_margin\<close> of
  \<open>spikeinterface.core\<close> that fetches the block of a chunk. The helper is called with
  the number of channels, the segment, \<open>start_frame\<close>, \<open>end_frame\<close> and the margin, and
  returns the block with the left and the right margin.
\<close>

type_synonym chunk_fetch = "nat \<Rightarrow> traces \<Rightarrow> int \<Rightarrow> int \<Rightarrow> int \<Rightarrow> traces \<times> int \<times> int"

record env =
  have_numba :: bool
  have_pyopencl :: bool
  device_order :: "nat \<Rightarrow> nat list"
  float_unit :: float_unit
  get_chunk :: chunk_fetch

text \<open>
  The names of the registry \<open>detect_peak_methods\<close>, and \<open>check_params\<close> of the class
  registered under a name (a name that is not registered is a \<open>KeyError\<close> of the
  dictionary).
\<close>

definition detect_peak_methods :: "string list" where
  "detect_peak_methods = [''by_channel'', ''locally_exclusive'', ''locally_exclusive_cl'']"

definition check_params :: "env \<Rightarrow> string \<Rightarrow> recording \<Rightarrow> method_kwargs \<Rightarrow> error + method_args" where
  "check_params ev method recording kw =
     (if method = ''by_channel'' then
        (case by_channel_check_params (float_unit ev) recording (kw_peak_sign kw) (kw_detect_threshold kw)
                (kw_exclude_sweep_ms kw) (kw_noise_levels kw) of
           Inl err \<Rightarrow> Inl err
         | Inr (sign, thr, e) \<Rightarrow> Inr (ByChannelArgs sign thr e))
      else if method = ''locally_exclusive'' then
        (case locally_exclusive_check_params (float_unit ev) (have_numba ev) recording
                (kw_peak_sign kw)
                (kw_detect_threshold kw) (kw_exclude_sweep_ms kw) (kw_local_radius_um kw)
                (kw_noise_levels kw) of
           Inl err \<Rightarrow> Inl err
         | Inr (sign, thr, e, nbm) \<Rightarrow> Inr (LocallyExclusiveArgs sign thr e nbm))
      else if method = ''locally_exclusive_cl'' then
        (case opencl_check_params (float_unit ev) (have_pyopencl ev) recording (kw_peak_sign kw)
                (kw_detect_threshold kw) (kw_exclude_sweep_ms kw) (kw_local_radius_um kw)
                (kw_noise_levels kw) of
           Inl err \<Rightarrow> Inl err
         | Inr ex \<Rightarrow> Inr (OpenCLArgs ex))
      else Inl KeyError)"

fun get_method_margin :: "method_args \<Rightarrow> int" where
  "get_method_margin (ByChannelArgs sign thr e) = e"
| "get_method_margin (LocallyExclusiveArgs sign thr e nbm) = e"
| "get_method_margin (OpenCLArgs ex) = ex_exclude_sweep_size ex"

text \<open>
  \<open>method_class.detect_peaks(traces, *method_args)\<close>. Only the OpenCL executor changes
  in a call; the arguments are returned with the index arrays.
\<close>

fun method_detect_peaks ::
  "env \<Rightarrow> traces \<Rightarrow> method_args \<Rightarrow> error + method_args \<times> (int \<times> nat) list" where
  "method_detect_peaks ev tr (ByChannelArgs sign thr e) =
     (case by_channel_detect_peaks tr sign thr e of
        Inl err \<Rightarrow> Inl err
      | Inr ps \<Rightarrow> Inr (ByChannelArgs sign thr e, ps))"
| "method_detect_peaks ev tr (LocallyExclusiveArgs sign thr e nbm) =
     (case locally_exclusive_detect_peaks (have_numba ev) tr sign thr e nbm of
        Inl err \<Rightarrow> Inl err
      | Inr ps \<Rightarrow> Inr (LocallyExclusiveArgs sign thr e nbm, ps))"
| "method_detect_peaks ev tr (OpenCLArgs ex) =
     (case detect_peak (device_order ev) ex tr of
        Inl err \<Rightarrow> Inl err
      | Inr (ex', ps) \<Rightarrow> Inr (OpenCLArgs ex', ps))"

subsection \<open>The chunk worker\<close>

text \<open>
  The block of a chunk: the rows \<open>start_frame - margin\<close> up to \<open>end_frame + margin\<close>
  of the segment, with a row of zeros for every row outside the segment
  (\<open>add_zeros=True\<close>). \<open>padded_row\<close> is row \<open>g\<close> of the segment, or a row of zeros
  when \<open>g\<close> is outside it.
\<close>

definition padded_row :: "nat \<Rightarrow> traces \<Rightarrow> int \<Rightarrow> real list" where
  "padded_row nchan segment g =
     (if 0 \<le> g \<and> g < int (length segment) then segment ! nat g else replicate nchan 0)"

definition padded_block :: "nat \<Rightarrow> traces \<Rightarrow> int \<Rightarrow> int \<Rightarrow> int \<Rightarrow> traces" where
  "padded_block nchan segment start_frame end_frame margin =
     map (\<lambda>k. padded_row nchan segment (start_frame - margin + int k))
       [0..<nat (end_frame - start_frame + 2 * margin)]"

text \<open>
  Modelled from the spec: \<open>get_chunk_with_margin\<close> of \<open>spikeinterface.core\<close>, called
  with \<open>add_zeros=True\<close>, whose source is not part of the files at hand. The
  specification has it fetch the block covering
  \<open>[start_frame - margin, end_frame + margin)\<close>, "clipped at true segment boundaries
  with zero-padding for the missing portion", and "record the actual left/right margin
  actually available (may be smaller than requested at segment edges)". The margins
  returned are therefore the numbers of samples of the segment that lie before and
  after the chunk, up to \<open>margin\<close>.
\<close>

definition get_chunk_with_margin :: chunk_fetch where
  "get_chunk_with_margin nchan segment start_frame end_frame margin =
     (padded_block nchan segment start_frame end_frame margin,
      max 0 (min margin start_frame),
      max 0 (min margin (int (length segment) - end_frame)))"



text \<open>A peak record (\<open>base_peak_dtype\<close>).\<close>

record peak =
  sample_ind :: int
  channel_ind :: nat
  amplitude :: real
  segment_ind :: nat

text \<open>
  \<open>traces[peak_sample_ind, peak_chan_ind]\<close> for one pair of indices: a negative
  sample index counts from the end, an index outside the block raises \<open>IndexError\<close>.
\<close>

definition py_index2 :: "traces \<Rightarrow> int \<Rightarrow> nat \<Rightarrow> error + real" where
  "py_index2 tr s c =
     (let n = int (length tr); j = (if s < 0 then s + n else s)
      in if 0 \<le> j \<and> j < n \<and> c < length (tr ! nat j) then Inr (tr ! nat j ! c)
         else Inl IndexError)"

fun amplitudes :: "traces \<Rightarrow> (int \<times> nat) list \<Rightarrow> error + real list" where
  "amplitudes tr [] = Inr []"
| "amplitudes tr ((s, c) # rest) =
     (case py_index2 tr s c of
        Inl err \<Rightarrow> Inl err
      | Inr a \<Rightarrow>
          (case amplitudes tr rest of Inl err \<Rightarrow> Inl err | Inr amps \<Rightarrow> Inr (a # amps)))"

text \<open>
  The context of a worker (\<open>worker_ctx\<close>). The method class is the tag of the method
  arguments. Pipeline nodes are not modelled beyond the extra margin they ask for:
  the worker below returns the peak array, the first component of what the source
  returns when nodes are present.
\<close>

record worker_ctx =
  ctx_recording :: recording
  ctx_method_args :: method_args
  ctx_extra_margin :: int

text \<open>
  The steps of \<open>_detect_peaks_chunk\<close>: the block handed to the method (the extra
  margin of the pipeline nodes is cut off when there is one), the shift of the sample
  indices back into the full block, and the peak records with their sample indices
  made absolute by \<open>start_frame - left_margin\<close>.
\<close>

definition trace_detection_of :: "int \<Rightarrow> traces \<Rightarrow> traces" where
  "trace_detection_of extra_margin traces =
     (if extra_margin > 0 then py_slice extra_margin (- extra_margin) traces else traces)"

definition add_extra_margin :: "int \<Rightarrow> (int \<times> nat) list \<Rightarrow> (int \<times> nat) list" where
  "add_extra_margin extra_margin inds =
     (if extra_margin > 0 then map (\<lambda>(s, c). (s + extra_margin, c)) inds else inds)"

definition make_peaks :: "nat \<Rightarrow> int \<Rightarrow> (int \<times> nat) list \<Rightarrow> real list \<Rightarrow> peak list" where
  "make_peaks segment_index offset inds amps =
     map2 (\<lambda>(s, c) a. \<lparr>sample_ind = s + offset, channel_ind = c, amplitude = a,
                        segment_ind = segment_index\<rparr>) inds amps"

text \<open>
  \<open>_detect_peaks_chunk\<close>. The context is returned with the peaks because the OpenCL
  executor inside the method arguments keeps its buffers from one call to the next.
\<close>

definition detect_peaks_chunk ::
  "env \<Rightarrow> nat \<Rightarrow> int \<Rightarrow> int \<Rightarrow> worker_ctx \<Rightarrow> error + worker_ctx \<times> peak list" where
  "detect_peaks_chunk ev segment_index start_frame end_frame ctx =
     (let recording = ctx_recording ctx;
          extra_margin = ctx_extra_margin ctx;
          margin = get_method_margin (ctx_method_args ctx) + extra_margin
      in if segment_index \<ge> length (recording_segments recording) then Inl IndexError
         else
           let (traces, left_margin, right_margin) =
                 get_chunk ev (num_channels recording)
                   (recording_segments recording ! segment_index) start_frame end_frame margin;
               trace_detection = trace_detection_of extra_margin traces
           in (case method_detect_peaks ev trace_detection (ctx_method_args ctx) of
                 Inl err \<Rightarrow> Inl err
               | Inr (margs, inds) \<Rightarrow>
                   (case amplitudes traces (add_extra_margin extra_margin inds) of
                      Inl err \<Rightarrow> Inl err
                    | Inr amps \<Rightarrow>
                        Inr (ctx\<lparr>ctx_method_args := margs\<rparr>,
                             make_peaks segment_index (start_frame - left_margin)
                               (add_extra_margin extra_margin inds) amps))))"

text \<open>The pair a peak record is identified by, and the methods that run on the device.\<close>

definition peak_key :: "peak \<Rightarrow> int \<times> nat" where
  "peak_key p = (sample_ind p, channel_ind p)"

fun uses_device :: "method_args \<Rightarrow> bool" where
  "uses_device (OpenCLArgs ex) = True"
| "uses_device margs = False"

subsection \<open>\<open>detect_peaks\<close>\<close>

text \<open>
  Modelled from the spec: \<open>ChunkRecordingExecutor.run\<close> of
  \<open>spikeinterface.core.job_tools\<close>, which is not part of the files at hand. The
  specification has the scheduler call the worker for disjoint, ordered ranges
  \<open>(segment_index, start_frame, end_frame)\<close> and collect the outputs in chunk order.
  The ranges it chooses are an argument here; a worker that raises ends the run.
\<close>

fun run_chunks ::
  "env \<Rightarrow> worker_ctx \<Rightarrow> (nat \<times> int \<times> int) list \<Rightarrow> error + peak list list" where
  "run_chunks ev ctx [] = Inr []"
| "run_chunks ev ctx ((seg, start_frame, end_frame) # rest) =
     (case detect_peaks_chunk ev seg start_frame end_frame ctx of
        Inl err \<Rightarrow> Inl err
      | Inr (ctx', peaks) \<Rightarrow>
          (case run_chunks ev ctx' rest of
             Inl err \<Rightarrow> Inl err
           | Inr outs \<Rightarrow> Inr (peaks # outs)))"

text \<open>
  A pipeline node, as far as \<open>detect_peaks\<close> looks at it: the margin returned by
  \<open>get_trace_margin\<close>. \<open>check_graph\<close> belongs to another module; its verdict on a list
  of nodes is an argument (\<open>None\<close> when it accepts the list).
\<close>

record pipeline_node =
  trace_margin :: int

text \<open>Python's \<open>max\<close> of a sequence: \<open>ValueError\<close> on an empty one.\<close>

definition py_max :: "int list \<Rightarrow> error + int" where
  "py_max xs = (case xs of [] \<Rightarrow> Inl ValueError | x # rest \<Rightarrow> Inr (fold max rest x))"

definition extra_margin_of ::
  "(pipeline_node list \<Rightarrow> error option) \<Rightarrow> pipeline_node list option \<Rightarrow> error + int" where
  "extra_margin_of check_graph pipeline_nodes =
     (case pipeline_nodes of
        None \<Rightarrow> Inr 0
      | Some nodes \<Rightarrow>
          (case check_graph nodes of
             Some err \<Rightarrow> Inl err
           | None \<Rightarrow> py_max (map trace_margin nodes)))"

text \<open>
  \<open>detect_peaks\<close>: the method is looked up, its parameters are checked, the extra
  margin of the pipeline nodes is computed, the chunks are run and their outputs
  concatenated (\<open>np.concatenate\<close> raises \<open>ValueError\<close> when there is no output at
  all). With pipeline nodes the source returns the peaks together with the outputs of
  the nodes; the model returns the peaks.
\<close>

definition detect_peaks ::
  "env \<Rightarrow> (pipeline_node list \<Rightarrow> error option) \<Rightarrow> (nat \<times> int \<times> int) list \<Rightarrow>
   recording \<Rightarrow> string \<Rightarrow> pipeline_node list option \<Rightarrow> method_kwargs \<Rightarrow> error + peak list" where
  "detect_peaks ev check_graph chunks recording method pipeline_nodes kw =
     (if method \<notin> set detect_peak_methods then Inl AssertionError
      else case check_params ev method recording kw of
             Inl err \<Rightarrow> Inl err
           | Inr margs \<Rightarrow>
               (case extra_margin_of check_graph pipeline_nodes of
                  Inl err \<Rightarrow> Inl err
                | Inr extra_margin \<Rightarrow>
                    (case run_chunks ev
                            \<lparr>ctx_recording = recording, ctx_method_args = margs,
                             ctx_extra_margin = extra_margin\<rparr> chunks of
                       Inl err \<Rightarrow> Inl err
                     | Inr outputs \<Rightarrow>
                         if pipeline_nodes = None \<and> outputs = [] then Inl ValueError
                         else Inr (concat outputs))))"

subsection \<open>Partitions of a segment into chunks\<close>






section \<open>Properties\<close>

subsection \<open>Slices and element-wise operations\<close>


lemma shape_ok_len: "shape_ok n c m \<Longrightarrow> length m = n"
  by (simp add: shape_ok_def)

lemma py_slice_nonneg:
  assumes "0 \<le> a"
  shows "py_slice a b xs = take (py_bound b (length xs) - nat a) (drop (nat a) xs)"
proof (cases "nat a \<le> length xs")
  case True
  with assms show ?thesis by (simp add: py_slice_def py_bound_def min_def Let_def)
next
  case False
  with assms show ?thesis by (simp add: py_slice_def py_bound_def min_def Let_def)
qed

lemma py_slice_window:
  assumes "a + l \<le> length xs"
  shows "py_slice (int a) (int a + int l) xs = take l (drop a xs)"
proof -
  have "py_bound (int a + int l) (length xs) = a + l"
    using assms by (simp add: py_bound_def nat_add_distrib)
  then show ?thesis by (simp add: py_slice_nonneg)
qed

lemma traces_center_pos:
  assumes "1 \<le> e"
  shows "traces_center tr e = take (length tr - 2 * nat e) (drop (nat e) tr)"
proof -
  have "py_bound (- e) (length tr) = length tr - nat e"
    using assms by (auto simp: py_bound_def max_def)
  with assms show ?thesis
    by (simp add: traces_center_def py_slice_nonneg mult_2)
qed

lemma traces_center_zero: "traces_center tr 0 = []"
  by (simp add: traces_center_def py_slice_def py_bound_def)

lemma length_traces_center:
  assumes "0 \<le> e"
  shows "length (traces_center tr e) = (if e = 0 then 0 else length tr - 2 * nat e)"
proof (cases "e = 0")
  case True then show ?thesis by (simp add: traces_center_zero)
next
  case False
  with assms have "1 \<le> e" by simp
  then show ?thesis using False by (simp add: traces_center_pos)
qed

lemma nth_traces_center:
  assumes "0 \<le> e" "s < length (traces_center tr e)"
  shows "traces_center tr e ! s = tr ! (s + nat e)"
proof -
  from assms have "e \<noteq> 0" by (auto simp: traces_center_zero)
  with assms have "1 \<le> e" by simp
  with assms show ?thesis by (simp add: traces_center_pos add.commute)
qed

lemma shape_ok_traces_center:
  assumes "shape_ok n c tr" "0 \<le> e"
  shows "shape_ok (length (traces_center tr e)) c (traces_center tr e)"
proof -
  have "set (traces_center tr e) \<subseteq> set tr"
    by (auto simp: traces_center_def py_slice_def Let_def dest: in_set_takeD in_set_dropD)
  with assms show ?thesis by (auto simp: shape_ok_def)
qed

lemma shape_ok_take_drop:
  assumes "shape_ok n c tr" "a + l \<le> n"
  shows "shape_ok l c (take l (drop a tr))"
  using assms by (auto simp: shape_ok_def dest: in_set_takeD in_set_dropD)

lemma shape_ok_cmp2:
  assumes "shape_ok l c a" "shape_ok l c b"
  shows "shape_ok l c (cmp2 r a b)"
  using assms by (auto simp: shape_ok_def cmp2_def set_zip)

lemma nth_cmp2:
  assumes "shape_ok l c a" "shape_ok l c b" "s < l" "k < c"
  shows "cmp2 r a b ! s ! k = r (a ! s ! k) (b ! s ! k)"
  using assms by (simp add: shape_ok_def cmp2_def)

lemma shape_ok_cmp_thr:
  assumes "shape_ok l c a" "length thr = c"
  shows "shape_ok l c (cmp_thr r a thr)"
  using assms by (auto simp: shape_ok_def cmp_thr_def)

lemma nth_cmp_thr:
  assumes "shape_ok l c a" "length thr = c" "s < l" "k < c"
  shows "cmp_thr r a thr ! s ! k = r (a ! s ! k) (thr ! k)"
  using assms by (simp add: shape_ok_def cmp_thr_def)

lemma shape_ok_mask_and:
  assumes "shape_ok l c p" "shape_ok l c q"
  shows "shape_ok l c (mask_and p q)"
  using assms by (auto simp: shape_ok_def mask_and_def set_zip)

lemma nth_mask_and:
  assumes "shape_ok l c p" "shape_ok l c q" "s < l" "k < c"
  shows "mask_and p q ! s ! k = (p ! s ! k \<and> q ! s ! k)"
  using assms by (simp add: shape_ok_def mask_and_def)

lemma shape_ok_mask_or:
  assumes "shape_ok l c p" "shape_ok l c q"
  shows "shape_ok l c (mask_or p q)"
  using assms by (auto simp: shape_ok_def mask_or_def set_zip)

lemma nth_mask_or:
  assumes "shape_ok l c p" "shape_ok l c q" "s < l" "k < c"
  shows "mask_or p q ! s ! k = (p ! s ! k \<or> q ! s ! k)"
  using assms by (simp add: shape_ok_def mask_or_def)

subsection \<open>The index arrays of a mask\<close>

lemma set_nonzero_row:
  "set (nonzero_row s row) = {(s', c). s' = s \<and> c < length row \<and> row ! c}"
  by (auto simp: nonzero_row_def)

lemma set_nonzero:
  "set (nonzero m) = {(s, c). s < length m \<and> c < length (m ! s) \<and> m ! s ! c}"
  by (auto simp: nonzero_def set_nonzero_row)

lemma sorted_nonzero_row: "sorted_wrt peak_before (nonzero_row s row)"
proof -
  have "sorted_wrt (<) (filter (\<lambda>c. row ! c) [0..<length row])"
    by (rule sorted_wrt_filter) simp
  then show ?thesis
    by (simp add: nonzero_row_def sorted_wrt_map peak_before_def)
qed

lemma sorted_nonzero_upto:
  "sorted_wrt peak_before (concat (map (\<lambda>s. nonzero_row s (m ! s)) [0..<k]))"
proof (induction k)
  case 0
  then show ?case by simp
next
  case (Suc k)
  have "peak_before p q"
    if "p \<in> set (concat (map (\<lambda>s. nonzero_row s (m ! s)) [0..<k]))"
      and "q \<in> set (nonzero_row k (m ! k))" for p q
    using that by (auto simp: set_nonzero_row peak_before_def)
  with Suc show ?case
    by (simp add: sorted_wrt_append sorted_nonzero_row)
qed

lemma sorted_nonzero: "sorted_wrt peak_before (nonzero m)"
  by (simp add: nonzero_def sorted_nonzero_upto)

lemma peak_before_irrefl: "\<not> peak_before p p"
  by (simp add: peak_before_def)

lemma sorted_peak_before_distinct:
  "sorted_wrt peak_before ps \<Longrightarrow> distinct ps"
  by (induction ps) (auto simp: peak_before_irrefl)

lemma distinct_nonzero: "distinct (nonzero m)"
  by (rule sorted_peak_before_distinct[OF sorted_nonzero])

lemma sorted_shift_samples:
  "sorted_wrt peak_before ps \<Longrightarrow> sorted_wrt peak_before (shift_samples k ps)"
  by (induction ps) (auto simp: shift_samples_def peak_before_def)

lemma set_shift_samples:
  "set (shift_samples k ps) = (\<lambda>(s, c). (int s + k, c)) ` set ps"
  by (simp add: shift_samples_def)

lemma mem_shift_nonzero:
  "(x, c) \<in> set (shift_samples k (nonzero m)) \<longleftrightarrow>
     (\<exists>s < length m. x = int s + k \<and> c < length (m ! s) \<and> m ! s ! c)"
  by (auto simp: set_shift_samples set_nonzero)


subsection \<open>The masks of the by-channel method\<close>

lemma mask_and_Nil: "mask_and [] q = []"
  by (simp add: mask_and_def)

lemma by_channel_fold:
  fixes tr :: traces
  assumes tr: "shape_ok n c tr" and e: "0 \<le> e"
    and pm: "shape_ok (length (traces_center tr e)) c pm" and k: "k \<le> nat e"
  shows "shape_ok (length (traces_center tr e)) c (fold (by_channel_sweep r1 r2 tr e) [0..<k] pm) \<and>
    (\<forall>s < length (traces_center tr e). \<forall>ch < c.
       fold (by_channel_sweep r1 r2 tr e) [0..<k] pm ! s ! ch =
         (pm ! s ! ch \<and>
          (\<forall>i < k. r1 (tr ! (s + nat e) ! ch) (tr ! (s + i) ! ch) \<and>
                    r2 (tr ! (s + nat e) ! ch) (tr ! (s + nat e + i + 1) ! ch))))"
  using k
proof (induction k)
  case 0
  then show ?case using pm by simp
next
  case (Suc k)
  let ?L = "length (traces_center tr e)"
  let ?ctr = "traces_center tr e"
  let ?acc = "fold (by_channel_sweep r1 r2 tr e) [0..<k] pm"
  from Suc have IH: "shape_ok ?L c ?acc"
    and IHn: "\<forall>s < ?L. \<forall>ch < c. ?acc ! s ! ch =
         (pm ! s ! ch \<and>
          (\<forall>i < k. r1 (tr ! (s + nat e) ! ch) (tr ! (s + i) ! ch) \<and>
                    r2 (tr ! (s + nat e) ! ch) (tr ! (s + nat e + i + 1) ! ch)))"
    by simp_all
  have fold_eq: "fold (by_channel_sweep r1 r2 tr e) [0..<Suc k] pm = by_channel_sweep r1 r2 tr e k ?acc"
    by simp
  show ?case
  proof (cases "?L = 0")
    case True
    with IH have "?acc = []" by (simp add: shape_ok_def)
    then have "by_channel_sweep r1 r2 tr e k ?acc = []"
      by (simp add: by_channel_sweep_def mask_and_def)
    with True show ?thesis unfolding fold_eq by (simp add: shape_ok_def)
  next
    case False
    from Suc.prems have ke: "k < nat e" by simp
    with e have e1: "1 \<le> e" by simp
    from False e have L: "?L = length tr - 2 * nat e" "2 * nat e < length tr"
      using length_traces_center[OF e, of tr] by (auto split: if_splits)
    have n: "length tr = n" using tr by (simp add: shape_ok_def)
    have ctr: "shape_ok ?L c ?ctr" by (rule shape_ok_traces_center[OF tr e])
    have w1: "py_slice (int k) (int k + int ?L) tr = take ?L (drop k tr)"
      by (rule py_slice_window) (use L ke in simp)
    have idx: "e + int k + 1 = int (nat e + k + 1)" using e by simp
    have "py_slice (int (nat e + k + 1)) (int (nat e + k + 1) + int ?L) tr
        = take ?L (drop (nat e + k + 1) tr)"
      by (rule py_slice_window) (use L ke in simp)
    then have w2: "py_slice (e + int k + 1) (e + int k + 1 + int ?L) tr
        = take ?L (drop (nat e + k + 1) tr)"
      by (simp only: idx)
    have s1: "shape_ok ?L c (take ?L (drop k tr))"
      by (rule shape_ok_take_drop[OF tr]) (use L ke n in simp)
    have s2: "shape_ok ?L c (take ?L (drop (nat e + k + 1) tr))"
      by (rule shape_ok_take_drop[OF tr]) (use L ke n in simp)
    have c1: "shape_ok ?L c (cmp2 r1 ?ctr (take ?L (drop k tr)))"
      by (rule shape_ok_cmp2[OF ctr s1])
    have c2: "shape_ok ?L c (cmp2 r2 ?ctr (take ?L (drop (nat e + k + 1) tr)))"
      by (rule shape_ok_cmp2[OF ctr s2])
    have a1: "shape_ok ?L c (mask_and ?acc (cmp2 r1 ?ctr (take ?L (drop k tr))))"
      by (rule shape_ok_mask_and[OF IH c1])
    have st: "by_channel_sweep r1 r2 tr e k ?acc =
        mask_and (mask_and ?acc (cmp2 r1 ?ctr (take ?L (drop k tr))))
                 (cmp2 r2 ?ctr (take ?L (drop (nat e + k + 1) tr)))"
      by (simp only: by_channel_sweep_def Let_def w1 w2)
    have shape: "shape_ok ?L c (by_channel_sweep r1 r2 tr e k ?acc)"
      unfolding st by (rule shape_ok_mask_and[OF a1 c2])
    have cell: "by_channel_sweep r1 r2 tr e k ?acc ! s ! ch =
         (pm ! s ! ch \<and>
          (\<forall>i < Suc k. r1 (tr ! (s + nat e) ! ch) (tr ! (s + i) ! ch) \<and>
                    r2 (tr ! (s + nat e) ! ch) (tr ! (s + nat e + i + 1) ! ch)))"
      if s: "s < ?L" and ch: "ch < c" for s ch
    proof -
      have "by_channel_sweep r1 r2 tr e k ?acc ! s ! ch =
          ((?acc ! s ! ch \<and> r1 (?ctr ! s ! ch) (take ?L (drop k tr) ! s ! ch)) \<and>
           r2 (?ctr ! s ! ch) (take ?L (drop (nat e + k + 1) tr) ! s ! ch))"
        unfolding st
        by (simp only: nth_mask_and[OF a1 c2 s ch] nth_mask_and[OF IH c1 s ch]
            nth_cmp2[OF ctr s1 s ch] nth_cmp2[OF ctr s2 s ch])
      moreover have "?ctr ! s = tr ! (s + nat e)" by (rule nth_traces_center[OF e s])
      moreover have "take ?L (drop k tr) ! s = tr ! (s + k)"
        using s L ke by (simp add: add.commute)
      moreover have "take ?L (drop (nat e + k + 1) tr) ! s = tr ! (s + nat e + k + 1)"
        using s L ke by (simp add: add.commute add.left_commute)
      ultimately show ?thesis using IHn s ch by (auto simp: less_Suc_eq)
    qed
    show ?thesis unfolding fold_eq using shape cell by blast
  qed
qed

text \<open>The mask of one sign, for either pair of comparisons.\<close>

lemma by_channel_mask_cells:
  assumes tr: "shape_ok n c tr" and e: "0 \<le> e" and thr: "length thr = c"
  shows "shape_ok (length (traces_center tr e)) c
           (fold (by_channel_sweep r1 r2 tr e) [0..<nat e] (cmp_thr r1 (traces_center tr e) thr))"
    and "s < length (traces_center tr e) \<Longrightarrow> ch < c \<Longrightarrow>
         fold (by_channel_sweep r1 r2 tr e) [0..<nat e] (cmp_thr r1 (traces_center tr e) thr) ! s ! ch =
         (r1 (tr ! (s + nat e) ! ch) (thr ! ch) \<and>
          (\<forall>i < nat e. r1 (tr ! (s + nat e) ! ch) (tr ! (s + i) ! ch) \<and>
                    r2 (tr ! (s + nat e) ! ch) (tr ! (s + nat e + i + 1) ! ch)))"
proof -
  let ?ctr = "traces_center tr e"
  have ctr: "shape_ok (length ?ctr) c ?ctr" by (rule shape_ok_traces_center[OF tr e])
  have pm: "shape_ok (length ?ctr) c (cmp_thr r1 ?ctr thr)"
    by (rule shape_ok_cmp_thr[OF ctr thr])
  note F = by_channel_fold[OF tr e pm order_refl, of r1 r2]
  from F show "shape_ok (length ?ctr) c
           (fold (by_channel_sweep r1 r2 tr e) [0..<nat e] (cmp_thr r1 ?ctr thr))"
    by blast
  assume s: "s < length ?ctr" and ch: "ch < c"
  have "cmp_thr r1 ?ctr thr ! s ! ch = r1 (tr ! (s + nat e) ! ch) (thr ! ch)"
    by (simp add: nth_cmp_thr[OF ctr thr s ch] nth_traces_center[OF e s])
  with F s ch show "fold (by_channel_sweep r1 r2 tr e) [0..<nat e] (cmp_thr r1 ?ctr thr) ! s ! ch =
         (r1 (tr ! (s + nat e) ! ch) (thr ! ch) \<and>
          (\<forall>i < nat e. r1 (tr ! (s + nat e) ! ch) (tr ! (s + i) ! ch) \<and>
                    r2 (tr ! (s + nat e) ! ch) (tr ! (s + nat e + i + 1) ! ch)))"
    by simp
qed

text \<open>The peaks of one sign are the interior samples that satisfy the rule of the specification, when the exclusion window is at least one sample.\<close>

lemma window_reindex:
  fixes P Q :: "nat \<Rightarrow> bool"
  assumes "e \<le> t"
  shows "(\<forall>i < e. P ((t - e) + i) \<and> Q (t + i + 1)) \<longleftrightarrow> (\<forall>j \<in> {1..e}. P (t - j) \<and> Q (t + j))"
proof
  assume L: "\<forall>i < e. P ((t - e) + i) \<and> Q (t + i + 1)"
  show "\<forall>j \<in> {1..e}. P (t - j) \<and> Q (t + j)"
  proof
    fix j assume j: "j \<in> {1..e}"
    then have "e - j < e" "j - 1 < e" by auto
    with L have "P ((t - e) + (e - j))" "Q (t + (j - 1) + 1)" by blast+
    moreover have "(t - e) + (e - j) = t - j" "t + (j - 1) + 1 = t + j"
      using j assms by auto
    ultimately show "P (t - j) \<and> Q (t + j)" by simp
  qed
next
  assume R: "\<forall>j \<in> {1..e}. P (t - j) \<and> Q (t + j)"
  show "\<forall>i < e. P ((t - e) + i) \<and> Q (t + i + 1)"
  proof (intro allI impI)
    fix i assume i: "i < e"
    then have "e - i \<in> {1..e}" "i + 1 \<in> {1..e}" by auto
    with R have "P (t - (e - i))" "Q (t + (i + 1))" by blast+
    moreover have "t - (e - i) = (t - e) + i" using i assms by auto
    ultimately show "P ((t - e) + i) \<and> Q (t + i + 1)" by (simp add: add.assoc)
  qed
qed

lemma by_channel_gen_mem:
  assumes tr: "shape_ok n c tr" and e: "1 \<le> e" and thr: "length thr = c"
  defines "rule r1 r2 t ch \<equiv>
     (r1 (tr ! t ! ch) (thr ! ch) \<and>
      (\<forall>j \<in> {1..nat e}. r1 (tr ! t ! ch) (tr ! (t - j) ! ch) \<and> r2 (tr ! t ! ch) (tr ! (t + j) ! ch)))"
  shows "(x, ch) \<in> set (shift_samples e (nonzero
            (fold (by_channel_sweep r1 r2 tr e) [0..<nat e] (cmp_thr r1 (traces_center tr e) thr)))) \<longleftrightarrow>
     (\<exists>t. x = int t \<and> nat e \<le> t \<and> t + nat e < n \<and> ch < c \<and> rule r1 r2 t ch)"
    (is "?L \<longleftrightarrow> ?R")
proof -
  let ?m = "fold (by_channel_sweep r1 r2 tr e) [0..<nat e] (cmp_thr r1 (traces_center tr e) thr)"
  let ?len = "length (traces_center tr e)"
  from e have e0: "0 \<le> e" by simp
  have n: "length tr = n" using tr by (simp add: shape_ok_def)
  have len: "?len = n - 2 * nat e" using length_traces_center[OF e0, of tr] e n by simp
  have shape: "shape_ok ?len c ?m"
    by (rule by_channel_mask_cells(1)[OF tr e0 thr])
  have cell: "?m ! s ! ch = rule r1 r2 (s + nat e) ch"
    if s: "s < ?len" and ch: "ch < c" for s
  proof -
    have "?m ! s ! ch =
         (r1 (tr ! (s + nat e) ! ch) (thr ! ch) \<and>
          (\<forall>i < nat e. r1 (tr ! (s + nat e) ! ch) (tr ! (s + i) ! ch) \<and>
                    r2 (tr ! (s + nat e) ! ch) (tr ! (s + nat e + i + 1) ! ch)))"
      by (rule by_channel_mask_cells(2)[OF tr e0 thr s ch])
    also have "(\<forall>i < nat e. r1 (tr ! (s + nat e) ! ch) (tr ! (s + i) ! ch) \<and>
                    r2 (tr ! (s + nat e) ! ch) (tr ! (s + nat e + i + 1) ! ch)) \<longleftrightarrow>
       (\<forall>j \<in> {1..nat e}. r1 (tr ! (s + nat e) ! ch) (tr ! (s + nat e - j) ! ch) \<and>
                    r2 (tr ! (s + nat e) ! ch) (tr ! (s + nat e + j) ! ch))"
      using window_reindex[of "nat e" "s + nat e"
          "\<lambda>k. r1 (tr ! (s + nat e) ! ch) (tr ! k ! ch)" "\<lambda>k. r2 (tr ! (s + nat e) ! ch) (tr ! k ! ch)"]
      by simp
    finally show ?thesis by (simp add: rule_def)
  qed
  have lm: "length ?m = ?len" using shape by (simp add: shape_ok_def)
  show ?thesis
  proof
    assume ?L
    then obtain s where s: "s < ?len" "x = int s + e" "ch < length (?m ! s)" "?m ! s ! ch"
      unfolding mem_shift_nonzero lm by blast
    have chc: "ch < c" using s shape by (simp add: shape_ok_def)
    have "x = int (s + nat e)" using s e0 by simp
    moreover have "s + nat e + nat e < n" using s len by simp
    moreover have "rule r1 r2 (s + nat e) ch" using cell[OF s(1) chc] s by simp
    ultimately show ?R using chc by (intro exI[of _ "s + nat e"]) simp
  next
    assume ?R
    then obtain t where t: "x = int t" "nat e \<le> t" "t + nat e < n" "ch < c"
        "rule r1 r2 t ch" by blast
    let ?s = "t - nat e"
    have s: "?s < ?len" using t len by simp
    have st: "?s + nat e = t" using t by simp
    have "?m ! ?s ! ch" using cell[OF s t(4)] t st by simp
    moreover have "ch < length (?m ! ?s)" using shape s t by (simp add: shape_ok_def)
    moreover have "x = int ?s + e" using t e0 by simp
    ultimately show ?L unfolding mem_shift_nonzero lm using s by blast
  qed
qed

lemma by_channel_pos_mem:
  assumes tr: "shape_ok n c tr" and e: "1 \<le> e" and thr: "length thr = c"
  shows "(x, ch) \<in> set (shift_samples e (nonzero (by_channel_mask_pos tr thr e))) \<longleftrightarrow>
     (\<exists>t. x = int t \<and> nat e \<le> t \<and> t + nat e < n \<and> ch < c \<and> spec_peak_pos tr thr (nat e) t ch)"
  unfolding by_channel_mask_pos_def spec_peak_pos_def
  by (rule by_channel_gen_mem[OF tr e thr])

lemma by_channel_neg_mem:
  assumes tr: "shape_ok n c tr" and e: "1 \<le> e" and thr: "length thr = c"
  shows "(x, ch) \<in> set (shift_samples e (nonzero (by_channel_mask_neg tr thr e))) \<longleftrightarrow>
     (\<exists>t. x = int t \<and> nat e \<le> t \<and> t + nat e < n \<and> ch < c \<and> spec_peak_neg tr thr (nat e) t ch)"
proof -
  have thr': "length (map uminus thr) = c" using thr by simp
  have "ch < c \<Longrightarrow> map uminus thr ! ch = - (thr ! ch)" for ch using thr by simp
  then show ?thesis
    unfolding by_channel_mask_neg_def spec_peak_neg_def by_channel_gen_mem[OF tr e thr']
    by auto
qed

text \<open>The run of each sign, and the distance of two peaks of one sign.\<close>

lemma by_channel_detect_peaks_pos:
  "by_channel_detect_peaks tr ''pos'' thr e = Inr (shift_samples e (nonzero (by_channel_mask_pos tr thr e)))"
  by (simp add: by_channel_detect_peaks_def select_mask_def)

lemma by_channel_detect_peaks_neg:
  "by_channel_detect_peaks tr ''neg'' thr e = Inr (shift_samples e (nonzero (by_channel_mask_neg tr thr e)))"
  by (simp add: by_channel_detect_peaks_def select_mask_def)

lemma by_channel_detect_peaks_both:
  "by_channel_detect_peaks tr ''both'' thr e =
     Inr (shift_samples e (nonzero (mask_or (by_channel_mask_neg tr thr e) (by_channel_mask_pos tr thr e))))"
  by (simp add: by_channel_detect_peaks_def select_mask_def)

lemma spec_peak_pos_apart:
  assumes "spec_peak_pos tr thr e t ch" "spec_peak_pos tr thr e t' ch" "t < t'"
  shows "t + e < t'"
proof (rule ccontr)
  assume "\<not> t + e < t'"
  with assms(3) have j: "t' - t \<in> {1..e}" by auto
  from assms(1) j have "tr ! t ! ch \<ge> tr ! (t + (t' - t)) ! ch"
    unfolding spec_peak_pos_def by blast
  moreover from assms(2) j have "tr ! t' ! ch > tr ! (t' - (t' - t)) ! ch"
    unfolding spec_peak_pos_def by blast
  ultimately show False using assms(3) by simp
qed

lemma spec_peak_neg_apart:
  assumes "spec_peak_neg tr thr e t ch" "spec_peak_neg tr thr e t' ch" "t < t'"
  shows "t + e < t'"
proof (rule ccontr)
  assume "\<not> t + e < t'"
  with assms(3) have j: "t' - t \<in> {1..e}" by auto
  from assms(1) j have "tr ! t ! ch \<le> tr ! (t + (t' - t)) ! ch"
    unfolding spec_peak_neg_def by blast
  moreover from assms(2) j have "tr ! t' ! ch < tr ! (t' - (t' - t)) ! ch"
    unfolding spec_peak_neg_def by blast
  ultimately show False using assms(3) by simp
qed

lemma apart_abs:
  fixes t t' :: nat
  assumes "\<And>a b. P a \<Longrightarrow> P b \<Longrightarrow> a < b \<Longrightarrow> a + nat e < b" "P t" "P t'" "int t \<noteq> int t'"
  shows "\<bar>int t - int t'\<bar> > e"
proof (cases "t < t'")
  case True
  from assms(1)[OF assms(2,3) True] show ?thesis by linarith
next
  case False
  with assms(4) have "t' < t" by simp
  from assms(1)[OF assms(3,2) this] show ?thesis by linarith
qed


subsection \<open>The loops of the locally exclusive method\<close>

lemma numba_sweep_loop_eq:
  "numba_sweep_loop strict weak tr ctr e s c n is b =
     (b \<and> (\<forall>i \<in> set is. (c \<noteq> n \<longrightarrow> weak (ctr ! s ! c) (ctr ! s ! n)) \<and>
                         strict (ctr ! s ! c) (tr ! (s + i) ! n) \<and>
                         weak (ctr ! s ! c) (tr ! (e + s + i + 1) ! n)))"
proof (induction "is" arbitrary: b)
  case Nil
  then show ?case by simp
next
  case (Cons i rest)
  show ?case
    by (simp only: numba_sweep_loop.simps Let_def Cons.IH) auto
qed

lemma numba_neighbour_loop_eq:
  "numba_neighbour_loop strict weak tr ctr e nbm s c ns b =
     (b \<and> (\<forall>n \<in> set ns. nbm ! c ! n \<longrightarrow>
              (\<forall>i < e. (c \<noteq> n \<longrightarrow> weak (ctr ! s ! c) (ctr ! s ! n)) \<and>
                         strict (ctr ! s ! c) (tr ! (s + i) ! n) \<and>
                         weak (ctr ! s ! c) (tr ! (e + s + i + 1) ! n))))"
proof (induction ns arbitrary: b)
  case Nil
  then show ?case by simp
next
  case (Cons n rest)
  show ?case
    by (simp only: numba_neighbour_loop.simps Let_def Cons.IH numba_sweep_loop_eq) auto
qed

lemma map_length_mask_set: "map length (mask_set pm s c v) = map length pm"
proof (rule nth_equalityI)
  show "length (map length (mask_set pm s c v)) = length (map length pm)"
    by (simp add: mask_set_def)
next
  fix i assume "i < length (map length (mask_set pm s c v))"
  then have i: "i < length pm" by (simp add: mask_set_def)
  show "map length (mask_set pm s c v) ! i = map length pm ! i"
  proof (cases "i = s")
    case True
    with i show ?thesis by (simp add: mask_set_def)
  next
    case False
    with i show ?thesis by (simp add: mask_set_def)
  qed
qed

lemma length_mask_set: "length (mask_set pm s c v) = length pm"
  by (simp add: mask_set_def)

lemma nth_mask_set:
  assumes "s' < length pm" "c' < length (pm ! s')"
  shows "mask_set pm s c v ! s' ! c' = (if s' = s \<and> c' = c then v else pm ! s' ! c')"
proof (cases "s' = s")
  case True
  with assms show ?thesis by (simp add: mask_set_def nth_list_update)
next
  case False
  then show ?thesis by (simp add: mask_set_def)
qed

lemma mask_set_same: "mask_set pm s c (pm ! s ! c) = pm"
  by (simp add: mask_set_def)

lemma numba_sample_step_eq:
  "numba_sample_step strict weak tr ctr e nbm num_chans c s pm =
     mask_set pm s c (pm ! s ! c \<and>
        numba_neighbour_loop strict weak tr ctr e nbm s c [0..<num_chans] True)"
proof (cases "pm ! s ! c")
  case True
  then show ?thesis
    by (simp add: numba_sample_step_def numba_neighbour_loop_eq)
next
  case False
  then have "mask_set pm s c (pm ! s ! c \<and>
        numba_neighbour_loop strict weak tr ctr e nbm s c [0..<num_chans] True) = pm"
    using mask_set_same[of pm s c] by simp
  with False show ?thesis by (simp add: numba_sample_step_def)
qed

lemma fold_cells_samples:
  fixes G :: "nat \<Rightarrow> bool" and c :: nat
  defines "res ss pm \<equiv> fold (\<lambda>s pm. mask_set pm s c (pm ! s ! c \<and> G s)) ss pm"
  shows "map length (res ss pm) = map length pm"
    and "s' < length pm \<Longrightarrow> c' < length (pm ! s') \<Longrightarrow>
         res ss pm ! s' ! c' = (if c' = c \<and> s' \<in> set ss then pm ! s' ! c' \<and> G s' else pm ! s' ! c')"
proof -
  have "map length (res ss pm) = map length pm \<and>
    (\<forall>s' c'. s' < length pm \<longrightarrow> c' < length (pm ! s') \<longrightarrow>
         res ss pm ! s' ! c' = (if c' = c \<and> s' \<in> set ss then pm ! s' ! c' \<and> G s' else pm ! s' ! c'))"
  proof (induction ss arbitrary: pm)
    case Nil
    then show ?case by (simp add: res_def)
  next
    case (Cons s ss)
    let ?pm1 = "mask_set pm s c (pm ! s ! c \<and> G s)"
    have r: "res (s # ss) pm = res ss ?pm1" by (simp add: res_def)
    have ml: "map length ?pm1 = map length pm" by (rule map_length_mask_set)
    then have len: "length ?pm1 = length pm" by (simp add: length_mask_set)
    have rowlen: "length (?pm1 ! s') = length (pm ! s')" if "s' < length pm" for s'
      using that ml by (metis len nth_map)
    from Cons.IH[of ?pm1] have IH1: "map length (res ss ?pm1) = map length ?pm1"
      and IH2: "\<And>s' c'. s' < length ?pm1 \<Longrightarrow> c' < length (?pm1 ! s') \<Longrightarrow>
         res ss ?pm1 ! s' ! c' =
           (if c' = c \<and> s' \<in> set ss then ?pm1 ! s' ! c' \<and> G s' else ?pm1 ! s' ! c')"
      by blast+
    have cell: "res (s # ss) pm ! s' ! c' =
        (if c' = c \<and> s' \<in> set (s # ss) then pm ! s' ! c' \<and> G s' else pm ! s' ! c')"
      if s': "s' < length pm" and c': "c' < length (pm ! s')" for s' c'
    proof -
      have "res ss ?pm1 ! s' ! c' =
           (if c' = c \<and> s' \<in> set ss then ?pm1 ! s' ! c' \<and> G s' else ?pm1 ! s' ! c')"
        using IH2[of s' c'] s' c' len rowlen[OF s'] by simp
      moreover have "?pm1 ! s' ! c' = (if s' = s \<and> c' = c then pm ! s ! c \<and> G s else pm ! s' ! c')"
        by (rule nth_mask_set[OF s' c'])
      ultimately show ?thesis unfolding r by auto
    qed
    show ?case unfolding r using IH1 ml cell[unfolded r] by simp
  qed
  then show "map length (res ss pm) = map length pm"
    and "s' < length pm \<Longrightarrow> c' < length (pm ! s') \<Longrightarrow>
         res ss pm ! s' ! c' = (if c' = c \<and> s' \<in> set ss then pm ! s' ! c' \<and> G s' else pm ! s' ! c')"
    by blast+
qed

lemma fold_cells_channels:
  fixes G :: "nat \<Rightarrow> nat \<Rightarrow> bool" and L :: nat
  defines "col c pm \<equiv> fold (\<lambda>s pm. mask_set pm s c (pm ! s ! c \<and> G s c)) [0..<L] pm"
  shows "map length (fold col cs pm) = map length pm \<and>
    (\<forall>s' c'. s' < length pm \<longrightarrow> c' < length (pm ! s') \<longrightarrow>
       fold col cs pm ! s' ! c' =
         (if c' \<in> set cs \<and> s' < L then pm ! s' ! c' \<and> G s' c' else pm ! s' ! c'))"
proof (induction cs arbitrary: pm)
  case Nil
  then show ?case by simp
next
  case (Cons c cs)
  let ?pm1 = "col c pm"
  have ml: "map length ?pm1 = map length pm"
    unfolding col_def by (rule fold_cells_samples(1))
  then have len: "length ?pm1 = length pm" by (metis length_map)
  have rowlen: "length (?pm1 ! s') = length (pm ! s')" if "s' < length pm" for s'
    using that ml by (metis len nth_map)
  have c1: "?pm1 ! s' ! c' = (if c' = c \<and> s' < L then pm ! s' ! c' \<and> G s' c else pm ! s' ! c')"
    if "s' < length pm" "c' < length (pm ! s')" for s' c'
    unfolding col_def using fold_cells_samples(2)[OF that, of c "\<lambda>s. G s c" "[0..<L]"] by simp
  from Cons.IH[of ?pm1] have IH1: "map length (fold col cs ?pm1) = map length ?pm1"
    and IH2: "\<And>s' c'. s' < length ?pm1 \<Longrightarrow> c' < length (?pm1 ! s') \<Longrightarrow>
       fold col cs ?pm1 ! s' ! c' =
         (if c' \<in> set cs \<and> s' < L then ?pm1 ! s' ! c' \<and> G s' c' else ?pm1 ! s' ! c')"
    by blast+
  have cell: "fold col (c # cs) pm ! s' ! c' =
         (if c' \<in> set (c # cs) \<and> s' < L then pm ! s' ! c' \<and> G s' c' else pm ! s' ! c')"
    if s': "s' < length pm" and c': "c' < length (pm ! s')" for s' c'
  proof -
    have "fold col cs ?pm1 ! s' ! c' =
         (if c' \<in> set cs \<and> s' < L then ?pm1 ! s' ! c' \<and> G s' c' else ?pm1 ! s' ! c')"
      using IH2[of s' c'] s' c' len rowlen[OF s'] by simp
    with c1[OF s' c'] show ?thesis by auto
  qed
  show ?case using IH1 ml cell by simp
qed

lemma numba_detect_peak_cells:
  shows "map length (numba_detect_peak strict weak tr ctr pm e nbm) = map length pm"
    and "s < length pm \<Longrightarrow> c < length (pm ! s) \<Longrightarrow> c < ncols ctr \<Longrightarrow>
       numba_detect_peak strict weak tr ctr pm e nbm ! s ! c =
         (pm ! s ! c \<and>
          numba_neighbour_loop strict weak tr ctr (nat e) nbm s c [0..<ncols ctr] True)"
proof -
  let ?G = "\<lambda>s c. numba_neighbour_loop strict weak tr ctr (nat e) nbm s c [0..<ncols ctr] True"
  have step: "numba_sample_step strict weak tr ctr (nat e) nbm (ncols ctr) c =
      (\<lambda>s pm. mask_set pm s c (pm ! s ! c \<and> ?G s c))" for c
    by (intro ext) (rule numba_sample_step_eq)
  have unf: "numba_detect_peak strict weak tr ctr pm e nbm =
      fold (\<lambda>c pm'. fold (\<lambda>s pm. mask_set pm s c (pm ! s ! c \<and> ?G s c)) [0..<length pm] pm')
        [0..<ncols ctr] pm"
    by (simp add: numba_detect_peak_def Let_def step)
  note F = fold_cells_channels[of ?G "length pm" "[0..<ncols ctr]" pm, folded unf]
  from F show "map length (numba_detect_peak strict weak tr ctr pm e nbm) = map length pm"
    by blast
  assume "s < length pm" "c < length (pm ! s)" "c < ncols ctr"
  with F show "numba_detect_peak strict weak tr ctr pm e nbm ! s ! c = (pm ! s ! c \<and> ?G s c)"
    by simp
qed

lemma shape_ok_alt:
  "shape_ok l c m \<longleftrightarrow> length (map length m) = l \<and> (\<forall>x \<in> set (map length m). x = c)"
  by (simp add: shape_ok_def)

lemma shape_ok_same_lengths:
  assumes "map length a = map length b"
  shows "shape_ok l c a = shape_ok l c b"
  by (simp only: shape_ok_alt assms)

lemma all_less_conj_const:
  "0 < (e::nat) \<Longrightarrow> (\<forall>i < e. A \<and> P i) \<longleftrightarrow> (A \<and> (\<forall>i < e. P i))"
  by auto

lemma ncols_shape_ok:
  assumes "shape_ok l c m" "s < l"
  shows "ncols m = c"
  using assms by (cases m) (auto simp: shape_ok_def ncols_def)

lemma locally_exclusive_gen_cell:
  assumes tr: "shape_ok n c tr" and e: "0 \<le> e" and thr: "length thr = c"
  shows "shape_ok (length (traces_center tr e)) c
           (numba_detect_peak strict weak tr (traces_center tr e)
              (cmp_thr strict (traces_center tr e) thr) e nbm)"
    and "s < length (traces_center tr e) \<Longrightarrow> ch < c \<Longrightarrow>
         numba_detect_peak strict weak tr (traces_center tr e)
              (cmp_thr strict (traces_center tr e) thr) e nbm ! s ! ch =
         (strict (tr ! (s + nat e) ! ch) (thr ! ch) \<and>
          (\<forall>k \<in> {0..<c}. nbm ! ch ! k \<longrightarrow>
             (\<forall>j \<in> {1..nat e}. strict (tr ! (s + nat e) ! ch) (tr ! (s + nat e - j) ! k) \<and>
                               weak (tr ! (s + nat e) ! ch) (tr ! (s + nat e + j) ! k)) \<and>
             (k \<noteq> ch \<longrightarrow> weak (tr ! (s + nat e) ! ch) (tr ! (s + nat e) ! k))))"
proof -
  let ?ctr = "traces_center tr e"
  let ?pm = "cmp_thr strict ?ctr thr"
  let ?res = "numba_detect_peak strict weak tr ?ctr ?pm e nbm"
  have ctr: "shape_ok (length ?ctr) c ?ctr" by (rule shape_ok_traces_center[OF tr e])
  have pm: "shape_ok (length ?ctr) c ?pm" by (rule shape_ok_cmp_thr[OF ctr thr])
  show "shape_ok (length ?ctr) c ?res"
    using pm shape_ok_same_lengths[OF numba_detect_peak_cells(1)[of strict weak tr ?ctr ?pm e nbm]]
    by simp
  assume s: "s < length ?ctr" and ch: "ch < c"
  let ?t = "s + nat e"
  have nc: "ncols ?ctr = c" by (rule ncols_shape_ok[OF ctr s])
  from s e have e1: "0 < nat e" using length_traces_center[OF e, of tr] by (auto split: if_splits)
  have row: "?ctr ! s = tr ! ?t" by (rule nth_traces_center[OF e s])
  have s': "s < length ?pm" and ch': "ch < length (?pm ! s)"
    using pm s ch by (simp_all add: shape_ok_def)
  have "?res ! s ! ch =
      (?pm ! s ! ch \<and> numba_neighbour_loop strict weak tr ?ctr (nat e) nbm s ch [0..<c] True)"
    using numba_detect_peak_cells(2)[OF s' ch', of ?ctr strict weak tr e nbm] ch nc by simp
  moreover have "?pm ! s ! ch = strict (tr ! ?t ! ch) (thr ! ch)"
    by (simp add: nth_cmp_thr[OF ctr thr s ch] row)
  moreover have "numba_neighbour_loop strict weak tr ?ctr (nat e) nbm s ch [0..<c] True =
      (\<forall>k \<in> {0..<c}. nbm ! ch ! k \<longrightarrow>
             (\<forall>j \<in> {1..nat e}. strict (tr ! ?t ! ch) (tr ! (?t - j) ! k) \<and>
                               weak (tr ! ?t ! ch) (tr ! (?t + j) ! k)) \<and>
             (k \<noteq> ch \<longrightarrow> weak (tr ! ?t ! ch) (tr ! ?t ! k)))"
  proof -
    have win: "(\<forall>i < nat e. (ch \<noteq> k \<longrightarrow> weak (tr ! ?t ! ch) (tr ! ?t ! k)) \<and>
                 strict (tr ! ?t ! ch) (tr ! (s + i) ! k) \<and>
                 weak (tr ! ?t ! ch) (tr ! (nat e + s + i + 1) ! k)) \<longleftrightarrow>
          ((\<forall>j \<in> {1..nat e}. strict (tr ! ?t ! ch) (tr ! (?t - j) ! k) \<and>
                               weak (tr ! ?t ! ch) (tr ! (?t + j) ! k)) \<and>
             (k \<noteq> ch \<longrightarrow> weak (tr ! ?t ! ch) (tr ! ?t ! k)))" for k
    proof -
      have "(\<forall>i < nat e. (ch \<noteq> k \<longrightarrow> weak (tr ! ?t ! ch) (tr ! ?t ! k)) \<and>
                 strict (tr ! ?t ! ch) (tr ! (s + i) ! k) \<and>
                 weak (tr ! ?t ! ch) (tr ! (nat e + s + i + 1) ! k)) \<longleftrightarrow>
            ((k \<noteq> ch \<longrightarrow> weak (tr ! ?t ! ch) (tr ! ?t ! k)) \<and>
             (\<forall>i < nat e. strict (tr ! ?t ! ch) (tr ! ((?t - nat e) + i) ! k) \<and>
                 weak (tr ! ?t ! ch) (tr ! (?t + i + 1) ! k)))"
      proof -
        have i1: "?t - nat e + i = s + i" and i2: "?t + i + 1 = nat e + s + i + 1" for i
          by simp_all
        have sw: "(ch \<noteq> k) = (k \<noteq> ch)" by blast
        show ?thesis
          unfolding i1 i2 sw by (rule all_less_conj_const[OF e1])
      qed
      also have "(\<forall>i < nat e. strict (tr ! ?t ! ch) (tr ! ((?t - nat e) + i) ! k) \<and>
                 weak (tr ! ?t ! ch) (tr ! (?t + i + 1) ! k)) \<longleftrightarrow>
          (\<forall>j \<in> {1..nat e}. strict (tr ! ?t ! ch) (tr ! (?t - j) ! k) \<and>
                               weak (tr ! ?t ! ch) (tr ! (?t + j) ! k))"
        by (rule window_reindex[of "nat e" ?t
              "\<lambda>m. strict (tr ! ?t ! ch) (tr ! m ! k)" "\<lambda>m. weak (tr ! ?t ! ch) (tr ! m ! k)"]) simp
      finally show ?thesis by blast
    qed
    show ?thesis
      unfolding numba_neighbour_loop_eq row by (simp only: set_upt win simp_thms)
  qed
  ultimately show "?res ! s ! ch =
         (strict (tr ! ?t ! ch) (thr ! ch) \<and>
          (\<forall>k \<in> {0..<c}. nbm ! ch ! k \<longrightarrow>
             (\<forall>j \<in> {1..nat e}. strict (tr ! ?t ! ch) (tr ! (?t - j) ! k) \<and>
                               weak (tr ! ?t ! ch) (tr ! (?t + j) ! k)) \<and>
             (k \<noteq> ch \<longrightarrow> weak (tr ! ?t ! ch) (tr ! ?t ! k))))"
    by simp
qed

subsection \<open>The masks of the locally exclusive method\<close>

lemma locally_exclusive_detect_peaks_pos:
  "locally_exclusive_detect_peaks True tr ''pos'' thr e nbm =
     Inr (shift_samples e (nonzero (locally_exclusive_mask_pos tr thr e nbm)))"
  by (simp add: locally_exclusive_detect_peaks_def select_mask_def)

lemma locally_exclusive_detect_peaks_neg:
  "locally_exclusive_detect_peaks True tr ''neg'' thr e nbm =
     Inr (shift_samples e (nonzero (locally_exclusive_mask_neg tr thr e nbm)))"
  by (simp add: locally_exclusive_detect_peaks_def select_mask_def)

lemma locally_exclusive_detect_peaks_both:
  "locally_exclusive_detect_peaks True tr ''both'' thr e nbm =
     Inr (shift_samples e (nonzero (mask_or (locally_exclusive_mask_neg tr thr e nbm)
                                            (locally_exclusive_mask_pos tr thr e nbm))))"
  by (simp add: locally_exclusive_detect_peaks_def select_mask_def)

lemma locally_exclusive_mask_pos_cell:
  assumes tr: "shape_ok n c tr" and e: "0 \<le> e" and thr: "length thr = c"
    and s: "s < length (traces_center tr e)" and ch: "ch < c"
  shows "locally_exclusive_mask_pos tr thr e nbm ! s ! ch =
     (tr ! (s + nat e) ! ch > thr ! ch \<and> spec_local_pos tr nbm c (nat e) (s + nat e) ch)"
  unfolding locally_exclusive_mask_pos_def numba_detect_peak_pos_def spec_local_pos_def
  by (rule locally_exclusive_gen_cell(2)[OF tr e thr s ch])

lemma locally_exclusive_mask_neg_cell:
  assumes tr: "shape_ok n c tr" and e: "0 \<le> e" and thr: "length thr = c"
    and s: "s < length (traces_center tr e)" and ch: "ch < c"
  shows "locally_exclusive_mask_neg tr thr e nbm ! s ! ch =
     (tr ! (s + nat e) ! ch < - (thr ! ch) \<and> spec_local_neg tr nbm c (nat e) (s + nat e) ch)"
proof -
  have thr': "length (map uminus thr) = c" using thr by simp
  have "map uminus thr ! ch = - (thr ! ch)" using thr ch by simp
  then show ?thesis
    unfolding locally_exclusive_mask_neg_def numba_detect_peak_neg_def spec_local_neg_def
      locally_exclusive_gen_cell(2)[OF tr e thr' s ch]
    by simp
qed

lemma locally_exclusive_mask_shapes:
  assumes tr: "shape_ok n c tr" and e: "0 \<le> e" and thr: "length thr = c"
  shows "shape_ok (length (traces_center tr e)) c (locally_exclusive_mask_pos tr thr e nbm)"
    and "shape_ok (length (traces_center tr e)) c (locally_exclusive_mask_neg tr thr e nbm)"
proof -
  show "shape_ok (length (traces_center tr e)) c (locally_exclusive_mask_pos tr thr e nbm)"
    unfolding locally_exclusive_mask_pos_def numba_detect_peak_pos_def
    by (rule locally_exclusive_gen_cell(1)[OF tr e thr])
  have thr': "length (map uminus thr) = c" using thr by simp
  show "shape_ok (length (traces_center tr e)) c (locally_exclusive_mask_neg tr thr e nbm)"
    unfolding locally_exclusive_mask_neg_def numba_detect_peak_neg_def
    by (rule locally_exclusive_gen_cell(1)[OF tr e thr'])
qed

text \<open>Membership in the index arrays of a mask of known shape, in block coordinates.\<close>

lemma mem_shift_nonzero_center:
  assumes m: "shape_ok (length (traces_center tr e)) c m" and e: "0 \<le> e"
  shows "(int t, ch) \<in> set (shift_samples e (nonzero m)) \<longleftrightarrow>
     (in_center tr e t \<and> ch < c \<and> m ! (t - nat e) ! ch)"
proof -
  have lm: "length m = length (traces_center tr e)" using m by (simp add: shape_ok_def)
  have row: "s < length m \<Longrightarrow> length (m ! s) = c" for s using m by (simp add: shape_ok_def)
  show ?thesis
  proof
    assume "(int t, ch) \<in> set (shift_samples e (nonzero m))"
    then obtain s where s: "s < length m" "int t = int s + e" "ch < length (m ! s)" "m ! s ! ch"
      unfolding mem_shift_nonzero by blast
    from s(2) e have "t = s + nat e" by linarith
    with s lm row[OF s(1)] show "in_center tr e t \<and> ch < c \<and> m ! (t - nat e) ! ch"
      by (simp add: in_center_def)
  next
    assume R: "in_center tr e t \<and> ch < c \<and> m ! (t - nat e) ! ch"
    then have s: "t - nat e < length m" and te: "nat e \<le> t" by (simp_all add: in_center_def lm)
    have "int t = int (t - nat e) + e" using te e by linarith
    with R s row[OF s] show "(int t, ch) \<in> set (shift_samples e (nonzero m))"
      unfolding mem_shift_nonzero by blast
  qed
qed

subsection \<open>The masks of the two signs have the same shape\<close>

lemma map_length_map2:
  "map length (map2 (\<lambda>ra rb. map2 f ra rb) a b) = map2 (\<lambda>ra rb. min (length ra) (length rb)) a b"
  by (induction a b rule: list_induct2') simp_all

lemma map2_min_lengths:
  "map2 (\<lambda>ra rb. min (length ra) (length rb)) a b = map2 min (map length a) (map length b)"
  by (induction a b rule: list_induct2') simp_all

lemma map_length_cmp2: "map length (cmp2 r a b) = map2 min (map length a) (map length b)"
  by (simp only: cmp2_def map_length_map2 map2_min_lengths)

lemma map_length_mask_and: "map length (mask_and p q) = map2 min (map length p) (map length q)"
  by (simp only: mask_and_def map_length_map2 map2_min_lengths)

lemma map_length_mask_or: "map length (mask_or p q) = map2 min (map length p) (map length q)"
  by (simp only: mask_or_def map_length_map2 map2_min_lengths)

lemma map_length_cmp_thr:
  "map length (cmp_thr r a thr) = map (\<lambda>row. min (length row) (length thr)) a"
  by (simp add: cmp_thr_def)

lemma map_length_by_channel_sweep:
  "map length (by_channel_sweep r1 r2 tr e i pm) =
     map2 min (map2 min (map length pm)
                 (map length (cmp2 r1 (traces_center tr e)
                    (py_slice (int i) (int i + int (length (traces_center tr e))) tr))))
       (map length (cmp2 r2 (traces_center tr e)
          (py_slice (e + int i + 1) (e + int i + 1 + int (length (traces_center tr e))) tr)))"
  by (simp add: by_channel_sweep_def Let_def map_length_mask_and)

lemma by_channel_fold_same_lengths:
  assumes "map length pm = map length pm'"
  shows "map length (fold (by_channel_sweep r1 r2 tr e) is pm) =
         map length (fold (by_channel_sweep r1' r2' tr e) is pm')"
  using assms
proof (induction "is" arbitrary: pm pm')
  case Nil
  then show ?case by simp
next
  case (Cons i rest)
  have "map length (by_channel_sweep r1 r2 tr e i pm) =
        map length (by_channel_sweep r1' r2' tr e i pm')"
    by (simp only: map_length_by_channel_sweep map_length_cmp2 Cons.prems)
  from Cons.IH[OF this] show ?case by simp
qed

lemma by_channel_masks_same_lengths:
  "map length (by_channel_mask_pos tr thr e) = map length (by_channel_mask_neg tr thr e)"
  unfolding by_channel_mask_pos_def by_channel_mask_neg_def
  by (rule by_channel_fold_same_lengths) (simp add: map_length_cmp_thr)

lemma locally_exclusive_masks_same_lengths:
  "map length (locally_exclusive_mask_pos tr thr e nbm) =
   map length (locally_exclusive_mask_neg tr thr e nbm)"
  by (simp add: locally_exclusive_mask_pos_def locally_exclusive_mask_neg_def
      numba_detect_peak_pos_def numba_detect_peak_neg_def numba_detect_peak_cells(1)
      map_length_cmp_thr)

lemma set_nonzero_mask_or:
  assumes "map length a = map length b"
  shows "set (nonzero (mask_or a b)) = set (nonzero a) \<union> set (nonzero b)"
proof -
  have len: "length a = length b" using assms by (rule map_eq_imp_length_eq)
  have row: "length (a ! s) = length (b ! s)" if "s < length a" for s
    using that assms len by (metis nth_map)
  have lo: "length (mask_or a b) = length a" using len by (simp add: mask_or_def)
  have cell: "mask_or a b ! s = map2 (\<or>) (a ! s) (b ! s)" if "s < length a" for s
    using that len by (simp add: mask_or_def)
  show ?thesis
    unfolding set_nonzero lo using len row by (auto simp: cell)
qed

lemma set_shift_samples_Un:
  "set (shift_samples k (nonzero (mask_or a b))) =
     set (shift_samples k (nonzero a)) \<union> set (shift_samples k (nonzero b))"
  if "map length a = map length b"
  by (simp add: set_shift_samples set_nonzero_mask_or[OF that] image_Un)

lemma distinct_shift_samples: "distinct (shift_samples k (nonzero m))"
  by (rule sorted_peak_before_distinct[OF sorted_shift_samples[OF sorted_nonzero]])


subsection \<open>Parameter derivation\<close>

lemma py_int_truncates:
  "(0 \<le> x \<longrightarrow> of_int (py_int x) \<le> x \<and> x < of_int (py_int x) + 1) \<and>
   (x < 0 \<longrightarrow> of_int (py_int x) - 1 < x \<and> x \<le> of_int (py_int x))"
  unfolding py_int_def by (auto; linarith)


subsection \<open>Errors of the set-up and of the first chunk\<close>

text \<open>
  With an empty list of pipeline nodes that \<open>check_graph\<close> accepts, the error is the
  \<open>ValueError\<close> of \<open>max\<close> on an empty sequence.
\<close>

lemma detect_peaks_empty_pipeline_nodes_ValueError:
  assumes "check_params ev method recording kw = Inr margs" "method \<in> set detect_peak_methods"
    "check_graph [] = None"
  shows "detect_peaks ev check_graph chunks recording method (Some []) kw = Inl ValueError"
  using assms by (simp add: detect_peaks_def extra_margin_of_def py_max_def)

text \<open>
  An invalid \<open>peak_sign\<close> and a missing numba or pyopencl make \<open>check_params\<close> fail, and
  a failure of \<open>check_params\<close> ends \<open>detect_peaks\<close> whatever the chunks are. The sign
  \<open>both\<close> passes \<open>check_params\<close> of the OpenCL variant.
\<close>

lemma invalid_peak_sign_fails_in_check_params:
  assumes "kw_peak_sign kw \<notin> {''both'', ''neg'', ''pos''}"
  shows "\<exists>err. check_params ev method recording kw = Inl err"
  using assms
  by (auto simp: check_params_def by_channel_check_params_def locally_exclusive_check_params_def
      opencl_check_params_def)

lemma missing_backend_fails_in_check_params:
  shows "\<not> have_numba ev \<Longrightarrow>
           check_params ev ''locally_exclusive'' recording kw = Inl ModuleNotFoundError"
    and "\<not> have_pyopencl ev \<Longrightarrow> kw_peak_sign kw \<in> {''both'', ''neg'', ''pos''} \<Longrightarrow>
           check_params ev ''locally_exclusive_cl'' recording kw = Inl ModuleNotFoundError"
  by (auto simp: check_params_def locally_exclusive_check_params_def
      opencl_check_params_def executor_init_def Let_def)

lemma check_params_failure_precedes_chunks:
  assumes "check_params ev method recording kw = Inl err"
  shows "\<exists>err'. detect_peaks ev check_graph chunks recording method pipeline_nodes kw = Inl err'"
  using assms by (simp add: detect_peaks_def)

lemma opencl_both_passes_check_params:
  assumes "have_pyopencl ev" "kw_peak_sign kw = ''both''"
  shows "\<exists>ex. check_params ev ''locally_exclusive_cl'' recording kw = Inr (OpenCLArgs ex) \<and>
              ex_peak_sign ex = ''both'' \<and> ex_chunk_size ex = None"
  using assms
  by (simp add: check_params_def opencl_check_params_def executor_init_def Let_def)

text \<open>
  With an exclusion window of zero samples the trimmed block \<open>traces[0:-0]\<close> is empty
  and the CPU variant reports nothing, while the kernel tests every sample.
\<close>

lemma opencl_zero_window_disagrees_with_cpu:
  "locally_exclusive_detect_peaks True [[0],[10],[0]] ''pos'' [5] 0 [[True]] = Inr [] \<and>
   map_sum id snd (detect_peak (\<lambda>n. [0..<n])
     \<lparr>ex_abs_threholds = [5], ex_exclude_sweep_size = 0,
      ex_neighbours_mask = [[1]], ex_peak_sign = ''pos'', ex_chunk_size = None,
      ex_kernel_peak_sign = 0\<rparr> [[0],[10],[0]]) = Inr [(1, 0)]"
  by code_simp

text \<open>Orders in which a device may run its work items.\<close>

lemma valid_device_order_ascending: "valid_device_order (\<lambda>n. [0..<n])"
  by (simp add: valid_device_order_def)

lemma valid_device_order_descending: "valid_device_order (\<lambda>n. rev [0..<n])"
  by (simp add: valid_device_order_def)

lemma valid_device_order_zero_first:
  "valid_device_order (\<lambda>n. if n = 0 then [] else 0 # rev [1..<n])"
  by (auto simp: valid_device_order_def)

subsection \<open>The output of the chunk worker\<close>

lemma amplitudes_length:
  "amplitudes tr inds = Inr amps \<Longrightarrow> length amps = length inds"
proof (induction inds arbitrary: amps)
  case Nil
  then show ?case by simp
next
  case (Cons p inds)
  obtain s c where p: "p = (s, c)" by (cases p)
  from Cons.prems obtain a amps' where "amplitudes tr inds = Inr amps'" "amps = a # amps'"
    unfolding p by (auto split: sum.splits)
  with Cons.IH show ?case by simp
qed

lemma map_peak_key_make_peaks:
  assumes "length amps = length inds"
  shows "map peak_key (make_peaks k offset inds amps) = map (\<lambda>(s, c). (s + offset, c)) inds"
  using assms
proof (induction inds amps rule: list_induct2')
  case (4 p inds a amps)
  then show ?case by (cases p) (simp add: make_peaks_def peak_key_def)
qed (simp_all add: make_peaks_def)

lemma detect_peaks_chunk_Inr:
  assumes "detect_peaks_chunk ev k a b ctx = Inr (ctx', peaks)"
  obtains margs inds amps where
    "method_detect_peaks ev
       (trace_detection_of (ctx_extra_margin ctx)
          (fst (get_chunk ev (num_channels (ctx_recording ctx))
                  (recording_segments (ctx_recording ctx) ! k) a b
                  (get_method_margin (ctx_method_args ctx) + ctx_extra_margin ctx))))
       (ctx_method_args ctx) = Inr (margs, inds)"
    "ctx' = ctx\<lparr>ctx_method_args := margs\<rparr>"
    "length amps = length inds"
    "peaks = make_peaks k
               (a - fst (snd (get_chunk ev (num_channels (ctx_recording ctx))
                  (recording_segments (ctx_recording ctx) ! k) a b
                  (get_method_margin (ctx_method_args ctx) + ctx_extra_margin ctx))))
               (add_extra_margin (ctx_extra_margin ctx) inds) amps"
proof -
  let ?F = "get_chunk ev (num_channels (ctx_recording ctx))
              (recording_segments (ctx_recording ctx) ! k) a b
              (get_method_margin (ctx_method_args ctx) + ctx_extra_margin ctx)"
  from assms obtain margs inds amps where
    m: "method_detect_peaks ev (trace_detection_of (ctx_extra_margin ctx) (fst ?F))
          (ctx_method_args ctx) = Inr (margs, inds)"
    and am: "amplitudes (fst ?F) (add_extra_margin (ctx_extra_margin ctx) inds) = Inr amps"
    and r: "ctx' = ctx\<lparr>ctx_method_args := margs\<rparr>"
       "peaks = make_peaks k (a - fst (snd ?F))
                  (add_extra_margin (ctx_extra_margin ctx) inds) amps"
    unfolding detect_peaks_chunk_def Let_def
    by (auto split: if_splits sum.splits prod.splits)
  have "length amps = length inds"
    using amplitudes_length[OF am] by (simp add: add_extra_margin_def)
  from that[OF m r(1) this r(2)] show ?thesis .
qed

lemma sorted_map_shift:
  "sorted_wrt peak_before inds \<Longrightarrow>
   sorted_wrt peak_before (map (\<lambda>(s, c). (s + (d::int), c)) inds)"
  by (induction inds) (auto simp: peak_before_def)

lemma sorted_add_extra_margin:
  "sorted_wrt peak_before inds \<Longrightarrow> sorted_wrt peak_before (add_extra_margin x inds)"
  by (simp add: add_extra_margin_def sorted_map_shift)

lemma select_mask_sorted:
  assumes "(case select_mask sign p q of Inl err \<Rightarrow> Inl err
            | Inr pm \<Rightarrow> Inr (shift_samples e (nonzero pm))) = Inr ps"
  shows "sorted_wrt peak_before ps"
  using assms by (auto split: sum.splits intro: sorted_shift_samples sorted_nonzero)

lemma cpu_method_detect_peaks_sorted:
  assumes "method_detect_peaks ev tr margs = Inr (margs', inds)" "\<not> uses_device margs"
  shows "sorted_wrt peak_before inds"
proof (cases margs)
  case (ByChannelArgs sign thr e)
  with assms(1) have "by_channel_detect_peaks tr sign thr e = Inr inds"
    by (auto split: sum.splits)
  then show ?thesis unfolding by_channel_detect_peaks_def by (rule select_mask_sorted)
next
  case (LocallyExclusiveArgs sign thr e nbm)
  with assms(1) have "locally_exclusive_detect_peaks (have_numba ev) tr sign thr e nbm = Inr inds"
    by (auto split: sum.splits)
  then have "(case select_mask sign (locally_exclusive_mask_pos tr thr e nbm)
                  (locally_exclusive_mask_neg tr thr e nbm) of
             Inl err \<Rightarrow> Inl err
           | Inr pm \<Rightarrow> Inr (shift_samples e (nonzero pm))) = Inr inds"
    unfolding locally_exclusive_detect_peaks_def by (simp split: if_splits)
  then show ?thesis by (rule select_mask_sorted)
next
  case (OpenCLArgs ex)
  with assms(2) show ?thesis by simp
qed









subsection \<open>Chunks of a segment\<close>






subsection \<open>The peaks of a block as the samples that satisfy the rule of the method\<close>







lemma in_center_iff:
  assumes "0 \<le> e" "length X = L"
  shows "in_center X e t \<longleftrightarrow> (1 \<le> e \<and> nat e \<le> t \<and> t + nat e < L)"
  using assms length_traces_center[OF assms(1), of X]
  by (auto simp: in_center_def)




subsection \<open>What the host reads after a launch of the kernel\<close>

text \<open>
  Appends fill the buffer from the counter on. When work item 0 runs in a launch, the
  host reads the records of work item 0 and of the work items that run after it, in
  the order in which they run, whatever counter and buffer held before the launch.
\<close>

lemma fst_fold_kernel_append:
  "fst (fold kernel_append rs out) = fst out + length rs"
  by (induction rs arbitrary: out) (simp_all add: kernel_append_def)

lemma length_snd_fold_kernel_append:
  "length (snd (fold kernel_append rs out)) = length (snd out)"
  by (induction rs arbitrary: out) (simp_all add: kernel_append_def)

lemma take_fold_kernel_append:
  assumes "fst out + length rs \<le> length (snd out)"
  shows "take (fst out + length rs) (snd (fold kernel_append rs out)) =
         take (fst out) (snd out) @ rs"
  using assms
proof (induction rs arbitrary: out)
  case Nil
  show ?case by simp
next
  case (Cons r rs)
  let ?o = "kernel_append r out"
  have o: "fst ?o = fst out + 1" "length (snd ?o) = length (snd out)"
    by (simp_all add: kernel_append_def)
  from Cons.prems have lt: "fst out < length (snd out)"
    and cap: "fst ?o + length rs \<le> length (snd ?o)"
    using o by simp_all
  have t: "take (fst ?o) (snd ?o) = take (fst out) (snd out) @ [r]"
    using lt by (simp add: kernel_append_def take_Suc_conv_app_nth)
  have "take (fst out + length (r # rs)) (snd (fold kernel_append (r # rs) out)) =
      take (fst ?o + length rs) (snd (fold kernel_append rs ?o))"
    using o(1) by simp
  also have "\<dots> = take (fst ?o) (snd ?o) @ rs" by (rule Cons.IH[OF cap])
  also have "\<dots> = take (fst out) (snd out) @ r # rs" unfolding t by simp
  finally show ?case .
qed

lemma length_kernel_channel_loop:
  "length (kernel_channel_loop ksign tr nm thr C e pos chans peak) \<le> length chans"
  by (induction chans arbitrary: peak) (auto simp: Let_def intro: le_SucI)

lemma length_kernel_work_item:
  "length (kernel_work_item ksign tr nm thr chunk_size C e pos) \<le> C"
  using length_kernel_channel_loop[of ksign tr nm thr C e pos "[0..<C]" False]
  by (simp add: kernel_work_item_def)

lemma length_concat_work_items:
  "length (concat (map (kernel_work_item ksign tr nm thr chunk_size C e) ps))
     \<le> C * length ps"
proof (induction ps)
  case Nil
  show ?case by simp
next
  case (Cons p ps)
  then show ?case
    using length_kernel_work_item[of ksign tr nm thr chunk_size C e p]
    by simp
qed

lemma fst_fold_work_items_after_reset:
  assumes "0 \<notin> set ps"
  shows "fst (fold (kernel_run_work_item ksign tr nm thr chunk_size C e) ps out) =
           fst out + length (concat (map (kernel_work_item ksign tr nm thr chunk_size C e) ps))"
  using assms
proof (induction ps arbitrary: out)
  case Nil
  show ?case by simp
next
  case (Cons p ps)
  then have p: "p \<noteq> 0" and ps: "0 \<notin> set ps" by auto
  have o: "kernel_run_work_item ksign tr nm thr chunk_size C e p out =
      fold kernel_append (kernel_work_item ksign tr nm thr chunk_size C e p) out"
    using p by (simp add: kernel_run_work_item_def)
  show ?case using Cons.IH[OF ps] by (simp add: o fst_fold_kernel_append)
qed

lemma take_fold_work_items_after_reset:
  assumes "0 \<notin> set ps"
    and "fst out + length (concat (map (kernel_work_item ksign tr nm thr chunk_size C e) ps))
           \<le> length (snd out)"
  shows "take (fst out + length (concat (map (kernel_work_item ksign tr nm thr chunk_size C e) ps)))
           (snd (fold (kernel_run_work_item ksign tr nm thr chunk_size C e) ps out)) =
         take (fst out) (snd out) @
           concat (map (kernel_work_item ksign tr nm thr chunk_size C e) ps)"
  using assms
proof (induction ps arbitrary: out)
  case Nil
  show ?case by simp
next
  case (Cons p ps)
  let ?wi = "kernel_work_item ksign tr nm thr chunk_size C e"
  let ?o = "kernel_run_work_item ksign tr nm thr chunk_size C e p out"
  from Cons.prems(1) have p: "p \<noteq> 0" and ps: "0 \<notin> set ps" by auto
  have o: "?o = fold kernel_append (?wi p) out" using p by (simp add: kernel_run_work_item_def)
  have fo: "fst ?o = fst out + length (?wi p)" "length (snd ?o) = length (snd out)"
    by (simp_all add: o fst_fold_kernel_append length_snd_fold_kernel_append)
  from Cons.prems(2) have cap1: "fst out + length (?wi p) \<le> length (snd out)"
    and cap2: "fst ?o + length (concat (map ?wi ps)) \<le> length (snd ?o)"
    using fo by simp_all
  have "take (fst out + length (?wi p)) (snd (fold kernel_append (?wi p) out)) =
      take (fst out) (snd out) @ ?wi p"
    by (rule take_fold_kernel_append[OF cap1])
  then have t1: "take (fst ?o) (snd ?o) = take (fst out) (snd out) @ ?wi p"
    using fo(1) by (simp only: o)
  have "take (fst out + length (concat (map ?wi (p # ps)))) (snd (fold
            (kernel_run_work_item ksign tr nm thr chunk_size C e) (p # ps) out)) =
      take (fst ?o + length (concat (map ?wi ps))) (snd (fold
            (kernel_run_work_item ksign tr nm thr chunk_size C e) ps ?o))"
    by (simp add: fo(1) add.assoc)
  also have "\<dots> = take (fst ?o) (snd ?o) @ concat (map ?wi ps)"
    by (rule Cons.IH[OF ps cap2])
  also have "\<dots> = take (fst out) (snd out) @ concat (map ?wi (p # ps))"
    unfolding t1 by simp
  finally show ?case .
qed

lemma length_snd_fold_work_items:
  "length (snd (fold (kernel_run_work_item ksign tr nm thr chunk_size C e) ps out)) =
     length (snd out)"
proof (induction ps arbitrary: out)
  case Nil
  show ?case by simp
next
  case (Cons p ps)
  have "length (snd (kernel_run_work_item ksign tr nm thr chunk_size C e p out)) =
      length (snd out)"
    by (simp add: kernel_run_work_item_def length_snd_fold_kernel_append)
  with Cons.IH show ?case by simp
qed

lemma host_peaks_fold_work_items:
  assumes z: "0 \<in> set ps" and d: "distinct ps"
    and cap: "C * length ps \<le> length (snd out)"
  shows "host_peaks (fold (kernel_run_work_item ksign tr nm thr chunk_size C e) ps out) =
         map (\<lambda>(s, c). (int s, c))
           (concat (map (kernel_work_item ksign tr nm thr chunk_size C e)
              (dropWhile (\<lambda>p. p \<noteq> 0) ps)))"
proof -
  let ?wi = "kernel_work_item ksign tr nm thr chunk_size C e"
  let ?run = "kernel_run_work_item ksign tr nm thr chunk_size C e"
  from split_list_first[OF z] obtain xs ys where ps: "ps = xs @ 0 # ys" and xs: "0 \<notin> set xs"
    by blast
  from d ps have ys: "0 \<notin> set ys" by simp
  have "dropWhile (\<lambda>p. p \<noteq> 0) xs = []"
    using xs by (induction xs) auto
  then have dw: "dropWhile (\<lambda>p. p \<noteq> 0) ps = 0 # ys"
    unfolding ps by (simp add: dropWhile_append3)
  let ?o1 = "fold ?run xs out"
  let ?o2 = "?run 0 ?o1"
  have l1: "length (snd ?o1) = length (snd out)" by (rule length_snd_fold_work_items)
  have o2: "?o2 = fold kernel_append (?wi 0) (0, snd ?o1)"
    by (simp add: kernel_run_work_item_def)
  have tot: "length (concat (map ?wi (0 # ys))) \<le> length (snd out)"
  proof -
    have "length (concat (map ?wi (0 # ys))) \<le> C * length (0 # ys)"
      by (rule length_concat_work_items)
    also have "\<dots> \<le> C * length ps" unfolding ps by simp
    finally show ?thesis using cap by simp
  qed
  then have c0: "fst (0, snd ?o1) + length (?wi 0) \<le> length (snd (0, snd ?o1))"
    using l1 by simp
  have f2: "fst ?o2 = length (?wi 0)" "length (snd ?o2) = length (snd out)"
    unfolding o2 by (simp_all add: fst_fold_kernel_append length_snd_fold_kernel_append l1)
  have "take (length (?wi 0)) (snd (fold kernel_append (?wi 0) (0, snd ?o1))) = ?wi 0"
    using take_fold_kernel_append[OF c0] by simp
  then have t2: "take (fst ?o2) (snd ?o2) = ?wi 0"
    using f2(1) by (simp only: o2)
  have c2: "fst ?o2 + length (concat (map ?wi ys)) \<le> length (snd ?o2)"
    using tot f2 by simp
  let ?o3 = "fold ?run ys ?o2"
  have f3: "fst ?o3 = fst ?o2 + length (concat (map ?wi ys))"
    by (rule fst_fold_work_items_after_reset[OF ys])
  have t3: "take (fst ?o3) (snd ?o3) = ?wi 0 @ concat (map ?wi ys)"
    unfolding f3 using take_fold_work_items_after_reset[OF ys c2] t2 by simp
  have "fold ?run ps out = ?o3" unfolding ps by simp
  then show ?thesis
    unfolding host_peaks_def dw using t3 by simp
qed

lemma host_peaks_launch_kernel:
  assumes order: "valid_device_order dev_order"
    and e: "0 \<le> ex_exclude_sweep_size ex"
    and gs: "2 * ex_exclude_sweep_size ex < int (length tr)"
    and buf: "length buf = length (ex_neighbours_mask ex) * length tr"
  shows "host_peaks (launch_kernel dev_order ex tr (c, buf)) =
         map (\<lambda>(s, c). (int s, c))
           (concat (map (kernel_work_item (ex_kernel_peak_sign ex) (concat tr)
                           (concat (ex_neighbours_mask ex)) (ex_abs_threholds ex)
                           (length tr) (length (ex_neighbours_mask ex))
                           (nat (ex_exclude_sweep_size ex)))
              (dropWhile (\<lambda>p. p \<noteq> 0)
                 (dev_order (nat (int (length tr) - 2 * ex_exclude_sweep_size ex))))))"
proof -
  let ?gs = "nat (int (length tr) - 2 * ex_exclude_sweep_size ex)"
  from order have d: "distinct (dev_order ?gs)" and s: "set (dev_order ?gs) = {0..<?gs}"
    unfolding valid_device_order_def by blast+
  from gs have "0 < ?gs" by simp
  with s have z: "0 \<in> set (dev_order ?gs)" by simp
  have "length (dev_order ?gs) = ?gs"
    using distinct_card[OF d] s by simp
  moreover have "?gs \<le> length tr" using e by simp
  ultimately have "length (ex_neighbours_mask ex) * length (dev_order ?gs) \<le> length (snd (c, buf))"
    using buf by simp
  from host_peaks_fold_work_items[OF z d this] show ?thesis
    unfolding launch_kernel_def Let_def .
qed

lemma launch_kernel_initial_state:
  assumes order: "valid_device_order dev_order"
    and e: "0 \<le> ex_exclude_sweep_size ex"
    and gs: "2 * ex_exclude_sweep_size ex < int (length tr)"
    and buf: "length buf = length (ex_neighbours_mask ex) * length tr"
  shows "host_peaks (launch_kernel dev_order ex tr (c, buf)) = run_kernel dev_order ex tr"
  unfolding run_kernel_def
  by (simp only: host_peaks_launch_kernel[OF order e gs] buf length_replicate)

subsection \<open>Chunk invariance of a rule\<close>



subsection \<open>Peaks of one polarity\<close>

text \<open>Two different positive peaks of one channel, and two different negative peaks.\<close>

lemma positive_peaks_apart:
  assumes tr: "shape_ok n c tr" and thr: "length thr = c"
    and p: "(s, ch) \<in> set (positive_peaks tr thr e)"
    and p': "(s', ch) \<in> set (positive_peaks tr thr e)" and ne: "s \<noteq> s'"
  shows "\<bar>s - s'\<bar> > e"
proof (cases "1 \<le> e")
  case False
  with ne show ?thesis by linarith
next
  case True
  from p p' obtain t t' where t: "s = int t" "spec_peak_pos tr thr (nat e) t ch"
    and t': "s' = int t'" "spec_peak_pos tr thr (nat e) t' ch"
    unfolding positive_peaks_def by_channel_pos_mem[OF tr True thr] by blast
  show ?thesis
    using apart_abs[of "\<lambda>t. spec_peak_pos tr thr (nat e) t ch" e t t'] spec_peak_pos_apart t t' ne
    by blast
qed

lemma negative_peaks_apart:
  assumes tr: "shape_ok n c tr" and thr: "length thr = c"
    and p: "(s, ch) \<in> set (negative_peaks tr thr e)"
    and p': "(s', ch) \<in> set (negative_peaks tr thr e)" and ne: "s \<noteq> s'"
  shows "\<bar>s - s'\<bar> > e"
proof (cases "1 \<le> e")
  case False
  with ne show ?thesis by linarith
next
  case True
  from p p' obtain t t' where t: "s = int t" "spec_peak_neg tr thr (nat e) t ch"
    and t': "s' = int t'" "spec_peak_neg tr thr (nat e) t' ch"
    unfolding negative_peaks_def by_channel_neg_mem[OF tr True thr] by blast
  show ?thesis
    using apart_abs[of "\<lambda>t. spec_peak_neg tr thr (nat e) t ch" e t t'] spec_peak_neg_apart t t' ne
    by blast
qed

lemma by_channel_detect_peaks_signs:
  assumes "by_channel_detect_peaks tr peak_sign thr e = Inr ps"
  shows "peak_sign = ''pos'' \<and> ps = positive_peaks tr thr e \<or>
         peak_sign = ''neg'' \<and> ps = negative_peaks tr thr e \<or>
         peak_sign = ''both''"
  using assms
  by (auto simp: by_channel_detect_peaks_def select_mask_def positive_peaks_def
      negative_peaks_def split: if_splits)

subsection \<open>The spatial rule on the trimmed block\<close>

text \<open>
  For an exclusion window of at least one sample, the locally exclusive method reports
  a sample of the interior that passes the threshold test exactly when it satisfies
  the spatial rule of the specification.
\<close>

lemma locally_exclusive_spatial_rule_in_center:
  assumes tr: "shape_ok n c tr" and e: "0 \<le> e" and thr: "length thr = c"
    and t: "in_center tr e t" and ch: "ch < c"
  shows "(tr ! t ! ch > thr ! ch \<longrightarrow>
           (\<exists>ps. locally_exclusive_detect_peaks True tr ''pos'' thr e nbm = Inr ps \<and>
                 ((int t, ch) \<in> set ps \<longleftrightarrow> spec_local_pos tr nbm c (nat e) t ch))) \<and>
         (tr ! t ! ch < - (thr ! ch) \<longrightarrow>
           (\<exists>ps. locally_exclusive_detect_peaks True tr ''neg'' thr e nbm = Inr ps \<and>
                 ((int t, ch) \<in> set ps \<longleftrightarrow> spec_local_neg tr nbm c (nat e) t ch)))"
proof -
  from t have s: "t - nat e < length (traces_center tr e)" and te: "t - nat e + nat e = t"
    by (simp_all add: in_center_def)
  note sh = locally_exclusive_mask_shapes[OF tr e thr, of nbm]
  have "(int t, ch) \<in> set (shift_samples e (nonzero (locally_exclusive_mask_pos tr thr e nbm))) \<longleftrightarrow>
      (tr ! t ! ch > thr ! ch \<and> spec_local_pos tr nbm c (nat e) t ch)"
    unfolding mem_shift_nonzero_center[OF sh(1) e]
    using t ch locally_exclusive_mask_pos_cell[OF tr e thr s ch, of nbm] te by simp
  moreover
  have "(int t, ch) \<in> set (shift_samples e (nonzero (locally_exclusive_mask_neg tr thr e nbm))) \<longleftrightarrow>
      (tr ! t ! ch < - (thr ! ch) \<and> spec_local_neg tr nbm c (nat e) t ch)"
    unfolding mem_shift_nonzero_center[OF sh(2) e]
    using t ch locally_exclusive_mask_neg_cell[OF tr e thr s ch, of nbm] te by simp
  ultimately show ?thesis
    by (simp add: locally_exclusive_detect_peaks_pos locally_exclusive_detect_peaks_neg)
qed

lemma locally_exclusive_spatial_rule_window_ge_1:
  assumes tr: "shape_ok n c tr" and e: "1 \<le> e" and thr: "length thr = c"
    and t: "nat e \<le> t" "t + nat e < n" and ch: "ch < c"
  shows "(tr ! t ! ch > thr ! ch \<longrightarrow>
           (\<exists>ps. locally_exclusive_detect_peaks True tr ''pos'' thr e nbm = Inr ps \<and>
                 ((int t, ch) \<in> set ps \<longleftrightarrow> spec_local_pos tr nbm c (nat e) t ch))) \<and>
         (tr ! t ! ch < - (thr ! ch) \<longrightarrow>
           (\<exists>ps. locally_exclusive_detect_peaks True tr ''neg'' thr e nbm = Inr ps \<and>
                 ((int t, ch) \<in> set ps \<longleftrightarrow> spec_local_neg tr nbm c (nat e) t ch)))"
proof -
  from e have e0: "0 \<le> e" by simp
  from tr have "length tr = n" by (simp add: shape_ok_def)
  from in_center_iff[OF e0 this, of t] e t have "in_center tr e t" by simp
  from locally_exclusive_spatial_rule_in_center[OF tr e0 thr this ch] show ?thesis .
qed

section \<open>The claims of the specification\<close>

subsection \<open>Temporal exclusivity of the by-channel method\<close>

text \<open>
  Claim C5, as amended. For every run of the by-channel method, whatever the sign: two
  different peaks reported on the same channel are more than \<open>exclude_sweep_size\<close>
  samples apart, provided that, when \<open>peak_sign\<close> is \<open>both\<close>, the two are of the same
  polarity (both peaks of the positive mask, or both peaks of the negative mask). With
  \<open>pos\<close> or \<open>neg\<close> every pair of reported peaks is of one polarity. (With \<open>both\<close> the
  mask is the union of the two masks, computed independently, and a positive and a
  negative peak can be adjacent samples: see the counterexample below.)
\<close>

theorem by_channel_temporal_exclusivity:
  assumes tr: "shape_ok n c tr" and thr: "length thr = c"
    and run: "by_channel_detect_peaks tr peak_sign thr e = Inr ps"
    and p: "(s, ch) \<in> set ps" and p': "(s', ch) \<in> set ps" and ne: "s \<noteq> s'"
    and pol: "peak_sign = ''both'' \<longrightarrow> same_polarity tr thr e (s, ch) (s', ch)"
  shows "\<bar>s - s'\<bar> > e"
proof -
  from by_channel_detect_peaks_signs[OF run]
  consider (pos) "ps = positive_peaks tr thr e" | (neg) "ps = negative_peaks tr thr e"
    | (both) "peak_sign = ''both''"
    by blast
  then show ?thesis
  proof cases
    case pos
    with p p' show ?thesis using positive_peaks_apart[OF tr thr _ _ ne] by blast
  next
    case neg
    with p p' show ?thesis using negative_peaks_apart[OF tr thr _ _ ne] by blast
  next
    case both
    with pol have "same_polarity tr thr e (s, ch) (s', ch)" by simp
    then show ?thesis
      unfolding same_polarity_def
      using positive_peaks_apart[OF tr thr _ _ ne] negative_peaks_apart[OF tr thr _ _ ne]
      by blast
  qed
qed

text \<open>
  A run with \<open>both\<close>: two positive peaks and one negative peak on one channel; the two
  positive peaks are four samples apart.
\<close>

theorem by_channel_temporal_exclusivity_witness:
  "shape_ok 8 1 [[0],[10],[0],[-10],[0],[10],[0],[0::real]] \<and> length [5::real] = 1
   \<and> by_channel_detect_peaks [[0],[10],[0],[-10],[0],[10],[0],[0]] ''both'' [5] 1
       = Inr [(1, 0), (3, 0), (5, 0)]
   \<and> same_polarity [[0],[10],[0],[-10],[0],[10],[0],[0]] [5] 1 (1, 0) (5, 0)
   \<and> \<bar>(1::int) - 5\<bar> > 1"
proof -
  let ?tr = "[[0],[10],[0],[-10],[0],[10],[0],[0::real]]"
  have a: "shape_ok 8 1 ?tr" by (simp add: shape_ok_def)
  have b: "by_channel_detect_peaks ?tr ''both'' [5] 1 = Inr [(1, 0), (3, 0), (5, 0)]"
    by code_simp
  have c: "same_polarity ?tr [5] 1 (1, 0) (5, 0)"
    by code_simp
  have "\<bar>(1::int) - 5\<bar> > 1"
    by (rule by_channel_temporal_exclusivity[OF a _ b, of 1 0 5]) (simp_all add: c)
  with a b c show ?thesis by simp
qed

theorem by_channel_temporal_exclusivity_counterexample:
  "by_channel_detect_peaks [[0],[0],[10],[-10],[0],[0]] ''both'' [5] 2 = Inr [(2, 0), (3, 0)]
   \<and> \<not> \<bar>(2::int) - 3\<bar> \<ge> 2"
  by code_simp

subsection \<open>The spatial rule of the locally exclusive method\<close>

text \<open>
  Claim C4 says that, on every block, a candidate that passes the threshold test is
  reported by \<open>DetectPeakLocallyExclusive.detect_peaks\<close> exactly when it satisfies the
  spatial rule. For a window of at least one sample this is lemma
  \<open>locally_exclusive_spatial_rule_window_ge_1\<close>. The run below is an input on which the
  code does otherwise: with \<open>exclude_sweep_size = 0\<close> on a block of three samples of
  two neighbouring channels, sample 1 of channel 0 is above the threshold and not below
  channel 1 at the same sample, the windows are empty, and nothing is reported.
\<close>

theorem locally_exclusive_zero_window_reports_nothing:
  "locally_exclusive_detect_peaks True [[0,0],[10,3],[0,0]] ''pos'' [5,5] 0
     [[True,True],[True,True]] = Inr [] \<and>
   (1::nat) < length [[0,0],[10,3],[0,0::real]] \<and>
   [[0,0],[10,3],[0,0::real]] ! 1 ! 0 > [5,5] ! 0 \<and>
   [[0,0],[10,3],[0,0::real]] ! 1 ! 0 \<ge> [[0,0],[10,3],[0,0]] ! 1 ! 1"
  by code_simp

subsection \<open>Sign symmetry\<close>

text \<open>
  Claim C7. For every block, thresholds and exclusion window, the peaks returned with
  \<open>peak_sign = both\<close> are exactly the union of those returned with \<open>pos\<close> and with
  \<open>neg\<close> on the same data, without duplicates, for the by-channel method and for the
  locally exclusive method on the CPU (with numba available).
\<close>

theorem sign_symmetry:
  "(\<exists>pos neg both.
      by_channel_detect_peaks tr ''pos'' thr e = Inr pos \<and>
      by_channel_detect_peaks tr ''neg'' thr e = Inr neg \<and>
      by_channel_detect_peaks tr ''both'' thr e = Inr both \<and>
      set both = set pos \<union> set neg \<and> distinct both) \<and>
   (\<exists>pos neg both.
      locally_exclusive_detect_peaks True tr ''pos'' thr e nbm = Inr pos \<and>
      locally_exclusive_detect_peaks True tr ''neg'' thr e nbm = Inr neg \<and>
      locally_exclusive_detect_peaks True tr ''both'' thr e nbm = Inr both \<and>
      set both = set pos \<union> set neg \<and> distinct both)"
proof
  have "set (shift_samples e (nonzero (mask_or (by_channel_mask_neg tr thr e) (by_channel_mask_pos tr thr e))))
      = set (shift_samples e (nonzero (by_channel_mask_pos tr thr e))) \<union>
        set (shift_samples e (nonzero (by_channel_mask_neg tr thr e)))"
    using set_shift_samples_Un[OF by_channel_masks_same_lengths[symmetric], of e tr thr e] by blast
  then show "\<exists>pos neg both.
      by_channel_detect_peaks tr ''pos'' thr e = Inr pos \<and>
      by_channel_detect_peaks tr ''neg'' thr e = Inr neg \<and>
      by_channel_detect_peaks tr ''both'' thr e = Inr both \<and>
      set both = set pos \<union> set neg \<and> distinct both"
    by (simp add: by_channel_detect_peaks_pos by_channel_detect_peaks_neg
        by_channel_detect_peaks_both distinct_shift_samples)
next
  have "set (shift_samples e (nonzero (mask_or (locally_exclusive_mask_neg tr thr e nbm)
                                              (locally_exclusive_mask_pos tr thr e nbm))))
      = set (shift_samples e (nonzero (locally_exclusive_mask_pos tr thr e nbm))) \<union>
        set (shift_samples e (nonzero (locally_exclusive_mask_neg tr thr e nbm)))"
    using set_shift_samples_Un[OF locally_exclusive_masks_same_lengths[symmetric], of e tr thr e nbm]
    by blast
  then show "\<exists>pos neg both.
      locally_exclusive_detect_peaks True tr ''pos'' thr e nbm = Inr pos \<and>
      locally_exclusive_detect_peaks True tr ''neg'' thr e nbm = Inr neg \<and>
      locally_exclusive_detect_peaks True tr ''both'' thr e nbm = Inr both \<and>
      set both = set pos \<union> set neg \<and> distinct both"
    by (simp add: locally_exclusive_detect_peaks_pos locally_exclusive_detect_peaks_neg
        locally_exclusive_detect_peaks_both distinct_shift_samples)
qed

theorem sign_symmetry_witness:
  "by_channel_detect_peaks [[0],[0],[10],[-10],[0],[0]] ''pos'' [5] 2 = Inr [(2, 0)] \<and>
   by_channel_detect_peaks [[0],[0],[10],[-10],[0],[0]] ''neg'' [5] 2 = Inr [(3, 0)] \<and>
   by_channel_detect_peaks [[0],[0],[10],[-10],[0],[0]] ''both'' [5] 2 = Inr [(2, 0), (3, 0)] \<and>
   set [(2, 0), (3, 0)] = set [(2::int, 0::nat)] \<union> set [(3, 0)]"
proof -
  have a: "by_channel_detect_peaks [[0],[0],[10],[-10],[0],[0]] ''pos'' [5] 2 = Inr [(2, 0)]"
    by code_simp
  have b: "by_channel_detect_peaks [[0],[0],[10],[-10],[0],[0]] ''neg'' [5] 2 = Inr [(3, 0)]"
    by code_simp
  have c: "by_channel_detect_peaks [[0],[0],[10],[-10],[0],[0]] ''both'' [5] 2 = Inr [(2, 0), (3, 0)]"
    by code_simp
  from sign_symmetry[of "[[0],[0],[10],[-10],[0],[0]]" "[5]" 2 "[[True]]"] a b c
  have "set [(2, 0), (3, 0)] = set [(2::int, 0::nat)] \<union> set [(3, 0)]"
    by simp
  with a b c show ?thesis by simp
qed

subsection \<open>The parameters derived by \<open>check_params\<close>\<close>

text \<open>
  Claim C6, as amended. For every recording and parameter set with a valid
  \<open>peak_sign\<close>, and whatever the floating-point unit, \<open>DetectPeakByChannel.check_params\<close>
  returns the sign, the per-channel thresholds, each the double
  \<open>noise_levels[c] * detect_threshold\<close>, and as exclusion window the double
  \<open>exclude_sweep_ms * sampling_rate / 1000\<close> (the product, then the quotient, as the
  unit returns them) truncated towards zero (\<open>int(...)\<close>), not rounded to the nearest
  integer.
\<close>

theorem by_channel_check_params_derivation:
  assumes sign: "peak_sign \<in> {''both'', ''neg'', ''pos''}"
  shows "\<exists>thr e. by_channel_check_params u recording peak_sign detect_threshold exclude_sweep_ms
              noise_levels = Inr (peak_sign, thr, e) \<and>
           thr = map (\<lambda>x. fl_mul u x detect_threshold)
                   (case noise_levels of None \<Rightarrow> noise_levels_estimate recording | Some nl \<Rightarrow> nl) \<and>
           (let x = fl_div u (fl_mul u exclude_sweep_ms (sampling_frequency recording)) 1000
            in (0 \<le> x \<longrightarrow> of_int e \<le> x \<and> x < of_int e + 1) \<and>
               (x < 0 \<longrightarrow> of_int e - 1 < x \<and> x \<le> of_int e))"
  using sign
    py_int_truncates[of "fl_div u (fl_mul u exclude_sweep_ms (sampling_frequency recording)) 1000"]
  by (simp add: by_channel_check_params_def Let_def)

text \<open>
  A window of 0.125 ms at 30 kHz, noise levels 2 and 3, a threshold factor of 5. Every
  product and the quotient are doubles (10, 15, 3750 and 3.75), so every unit returns
  them as they are.
\<close>

theorem by_channel_check_params_derivation_witness:
  "''neg'' \<in> {''both'', ''neg'', ''pos''} \<and>
   by_channel_check_params exact_float_unit
     \<lparr>sampling_frequency = 30000, num_channels = 2, recording_segments = [],
      noise_levels_estimate = [2, 3], channel_distances = []\<rparr> ''neg'' 5 (1 / 8) None
     = Inr (''neg'', [10, 15], 3)"
proof -
  have s: "''neg'' \<in> {''both'', ''neg'', ''pos''}" by simp
  from by_channel_check_params_derivation[OF s,
      of exact_float_unit "\<lparr>sampling_frequency = 30000, num_channels = 2, recording_segments = [],
      noise_levels_estimate = [2, 3], channel_distances = []\<rparr>" 5 "1 / 8" None]
  obtain thr e where
    r: "by_channel_check_params exact_float_unit
     \<lparr>sampling_frequency = 30000, num_channels = 2, recording_segments = [],
      noise_levels_estimate = [2, 3], channel_distances = []\<rparr> ''neg'' 5 (1 / 8) None
     = Inr (''neg'', thr, e)"
    and thr: "thr = [10, 15]"
    and e: "of_int e \<le> (15 / 4 :: real)" "(15 / 4 :: real) < of_int e + 1"
    by (auto simp: Let_def exact_float_unit_def)
  from e have "e = 3" by linarith
  with r thr s show ?thesis by simp
qed

text \<open>The same call: the window is 3 samples, and 3.75 rounded to the nearest integer is 4.\<close>

theorem by_channel_check_params_round_counterexample:
  "by_channel_check_params exact_float_unit
     \<lparr>sampling_frequency = 30000, num_channels = 2, recording_segments = [],
      noise_levels_estimate = [2, 3], channel_distances = []\<rparr> ''neg'' 5 (1 / 8) None
     = Inr (''neg'', [10, 15], 3) \<and>
   round (1 / 8 * 30000 / 1000 :: real) = 4"
proof -
  have "round (1 / 8 * 30000 / 1000 :: real) = round (15 / 4 :: real)" by simp
  also have "\<dots> = 4" unfolding round_def by (simp add: floor_unique)
  finally have r: "round (1 / 8 * 30000 / 1000 :: real) = 4" .
  have "py_int (1 / 8 * 30000 / 1000) = 3"
    unfolding py_int_def by (simp add: floor_unique)
  then show ?thesis using r
    by (simp add: by_channel_check_params_def Let_def exact_float_unit_def)
qed

subsection \<open>An empty list of pipeline nodes\<close>

text \<open>
  Claim C10. For every recording and method, \<open>detect_peaks\<close> called with
  \<open>pipeline_nodes\<close> equal to the empty list raises an error during the set-up and
  returns no peak array (the maximum of the node margins is taken over an empty
  sequence); the empty list is not treated as \<open>None\<close>, with which the same call
  returns its peaks (second half of the witness, on the chunk \<open>[1, 7)\<close> of a segment
  of eight samples; 0.125 ms at 8 kHz is a window of one sample).
\<close>

theorem detect_peaks_empty_pipeline_nodes:
  "\<exists>err. detect_peaks ev check_graph chunks recording method (Some []) kw = Inl err"
  by (auto simp: detect_peaks_def extra_margin_of_def py_max_def split: sum.splits option.splits)

theorem detect_peaks_empty_pipeline_nodes_witness:
  "detect_peaks \<lparr>have_numba = True, have_pyopencl = True, device_order = (\<lambda>n. [0..<n]),
       float_unit = exact_float_unit, get_chunk = get_chunk_with_margin\<rparr>
     (\<lambda>nodes. None) [(0, 1, 7)]
     \<lparr>sampling_frequency = 8000, num_channels = 1,
      recording_segments = [[[0],[10],[0],[0],[0],[10],[0],[12]]],
      noise_levels_estimate = [1], channel_distances = [[0]]\<rparr> ''by_channel'' (Some [])
     \<lparr>kw_peak_sign = ''pos'', kw_detect_threshold = 5, kw_exclude_sweep_ms = 1 / 8,
      kw_local_radius_um = 50, kw_noise_levels = None\<rparr> = Inl ValueError \<and>
   detect_peaks \<lparr>have_numba = True, have_pyopencl = True, device_order = (\<lambda>n. [0..<n]),
       float_unit = exact_float_unit, get_chunk = get_chunk_with_margin\<rparr>
     (\<lambda>nodes. None) [(0, 1, 7)]
     \<lparr>sampling_frequency = 8000, num_channels = 1,
      recording_segments = [[[0],[10],[0],[0],[0],[10],[0],[12]]],
      noise_levels_estimate = [1], channel_distances = [[0]]\<rparr> ''by_channel'' None
     \<lparr>kw_peak_sign = ''pos'', kw_detect_threshold = 5, kw_exclude_sweep_ms = 1 / 8,
      kw_local_radius_um = 50, kw_noise_levels = None\<rparr>
   = Inr [\<lparr>sample_ind = 1, channel_ind = 0, amplitude = 10, segment_ind = 0\<rparr>,
          \<lparr>sample_ind = 5, channel_ind = 0, amplitude = 10, segment_ind = 0\<rparr>]"
proof -
  let ?ev = "\<lparr>have_numba = True, have_pyopencl = True, device_order = (\<lambda>n. [0..<n]),
       float_unit = exact_float_unit, get_chunk = get_chunk_with_margin\<rparr>"
  let ?rec = "\<lparr>sampling_frequency = 8000, num_channels = 1,
      recording_segments = [[[0],[10],[0],[0],[0],[10],[0],[12::real]]],
      noise_levels_estimate = [1], channel_distances = [[0]]\<rparr>"
  let ?kw = "\<lparr>kw_peak_sign = ''pos'', kw_detect_threshold = 5, kw_exclude_sweep_ms = 1 / 8,
      kw_local_radius_um = 50, kw_noise_levels = None\<rparr>"
  from detect_peaks_empty_pipeline_nodes[of ?ev "\<lambda>nodes. None" "[(0, 1, 7)]" ?rec "''by_channel''" ?kw]
  obtain err where e: "detect_peaks ?ev (\<lambda>nodes. None) [(0, 1, 7)] ?rec ''by_channel'' (Some []) ?kw = Inl err"
    by blast
  have v: "detect_peaks ?ev (\<lambda>nodes. None) [(0, 1, 7)] ?rec ''by_channel'' (Some []) ?kw = Inl ValueError"
    by code_simp
  have n: "detect_peaks ?ev (\<lambda>nodes. None) [(0, 1, 7)] ?rec ''by_channel'' None ?kw
   = Inr [\<lparr>sample_ind = 1, channel_ind = 0, amplitude = 10, segment_ind = 0\<rparr>,
          \<lparr>sample_ind = 5, channel_ind = 0, amplitude = 10, segment_ind = 0\<rparr>]"
    by code_simp
  from e v n show ?thesis by simp
qed

subsection \<open>Configuration errors and the first chunk\<close>

text \<open>
  Claim C8 says that every configuration error, the sign \<open>both\<close> on the OpenCL variant
  included, makes \<open>check_params\<close> fail before a chunk worker is invoked. The run below
  is the input on which the code does otherwise: \<open>check_params\<close> of
  \<open>locally_exclusive_cl\<close> accepts \<open>peak_sign = both\<close> and returns an executor, and the
  \<open>KeyError\<close> is raised inside the worker of the first chunk.
\<close>

theorem opencl_both_error_raised_in_chunk_worker:
  "check_params \<lparr>have_numba = True, have_pyopencl = True, device_order = (\<lambda>n. [0..<n]),
       float_unit = exact_float_unit, get_chunk = get_chunk_with_margin\<rparr>
     ''locally_exclusive_cl''
     \<lparr>sampling_frequency = 8000, num_channels = 1,
      recording_segments = [[[0],[10],[0],[0],[0],[10],[0],[12]]],
      noise_levels_estimate = [1], channel_distances = [[0]]\<rparr>
     \<lparr>kw_peak_sign = ''both'', kw_detect_threshold = 5, kw_exclude_sweep_ms = 1 / 8,
      kw_local_radius_um = 50, kw_noise_levels = None\<rparr>
   = Inr (OpenCLArgs \<lparr>ex_abs_threholds = [5], ex_exclude_sweep_size = 1,
            ex_neighbours_mask = [[1]], ex_peak_sign = ''both'', ex_chunk_size = None,
            ex_kernel_peak_sign = 0\<rparr>) \<and>
   detect_peaks_chunk \<lparr>have_numba = True, have_pyopencl = True, device_order = (\<lambda>n. [0..<n]),
       float_unit = exact_float_unit, get_chunk = get_chunk_with_margin\<rparr>
     0 0 8
     \<lparr>ctx_recording = \<lparr>sampling_frequency = 8000, num_channels = 1,
         recording_segments = [[[0],[10],[0],[0],[0],[10],[0],[12]]],
         noise_levels_estimate = [1], channel_distances = [[0]]\<rparr>,
      ctx_method_args = OpenCLArgs \<lparr>ex_abs_threholds = [5], ex_exclude_sweep_size = 1,
            ex_neighbours_mask = [[1]], ex_peak_sign = ''both'', ex_chunk_size = None,
            ex_kernel_peak_sign = 0\<rparr>,
      ctx_extra_margin = 0\<rparr> = Inl KeyError"
  by code_simp

subsection \<open>The OpenCL variant against the CPU variant\<close>

text \<open>
  Claim C3 says that the OpenCL variant returns the peaks of the CPU locally exclusive
  variant for identical parameters and supports every \<open>peak_sign\<close> that passes its
  validation. The run below is an input on which the code does otherwise: with
  \<open>peak_sign = both\<close> the CPU variant returns two peaks and the executor built from
  the same parameters raises \<open>KeyError\<close>.
\<close>

theorem opencl_both_disagrees_with_cpu:
  "locally_exclusive_detect_peaks True [[0,0],[10,12],[0,0],[0,-11],[0,0]] ''both'' [5,5] 1
     [[True,True],[True,True]] = Inr [(1, 1), (3, 1)] \<and>
   executor_init True [5,5] 1 [[True,True],[True,True]] ''both''
     = Inr \<lparr>ex_abs_threholds = [5,5], ex_exclude_sweep_size = 1,
            ex_neighbours_mask = [[1,1],[1,1]], ex_peak_sign = ''both'', ex_chunk_size = None,
            ex_kernel_peak_sign = 0\<rparr> \<and>
   detect_peak (\<lambda>n. [0..<n])
     \<lparr>ex_abs_threholds = [5,5], ex_exclude_sweep_size = 1,
      ex_neighbours_mask = [[1,1],[1,1]], ex_peak_sign = ''both'', ex_chunk_size = None,
      ex_kernel_peak_sign = 0\<rparr> [[0,0],[10,12],[0,0],[0,-11],[0,0]] = Inl KeyError"
  by code_simp

subsection \<open>The by-channel rule and an exclusion window of zero samples\<close>

text \<open>
  Claim C2 says that on a block of at least \<open>2 * exclude_sweep_size + 1\<close> samples
  \<open>DetectPeakByChannel.detect_peaks\<close> reports exactly the interior samples that satisfy
  the rule of the specification. For a window of at least one sample this is lemma
  \<open>by_channel_pos_mem\<close> (and \<open>by_channel_neg_mem\<close>). The run below is an input on which
  the code does otherwise: with \<open>exclude_sweep_size = 0\<close>, sample 1 of a block of three
  samples is in the interior \<open>[0, 3)\<close> and satisfies the rule, and nothing is reported.
\<close>

theorem by_channel_zero_window_reports_nothing:
  "by_channel_detect_peaks [[0],[10],[0]] ''pos'' [5] 0 = Inr [] \<and>
   length [[0],[10],[0::real]] \<ge> 2 * 0 + 1 \<and> (0::nat) \<le> 1 \<and> (1::nat) < 3 - 0 \<and>
   [[0],[10],[0::real]] ! 1 ! 0 > [5] ! 0"
  by code_simp

subsection \<open>The order of the records of one chunk\<close>

text \<open>
  Claim C9, as amended. For every chunk processed with the by-channel method or with
  the locally exclusive method on the CPU, the peak records returned by the worker are
  in ascending order of sample index and, for equal sample indices, in ascending order
  of channel index. (The OpenCL variant is left out: its kernel appends the records in
  the order in which the device runs the work items, see the counterexample below.)
\<close>

theorem cpu_chunk_output_order:
  assumes run: "detect_peaks_chunk ev k a b ctx = Inr (ctx', peaks)"
    and cpu: "\<not> uses_device (ctx_method_args ctx)"
  shows "sorted_wrt peak_before (map peak_key peaks)"
proof -
  from run obtain margs inds amps where
    m: "method_detect_peaks ev
       (trace_detection_of (ctx_extra_margin ctx)
          (fst (get_chunk ev (num_channels (ctx_recording ctx))
                  (recording_segments (ctx_recording ctx) ! k) a b
                  (get_method_margin (ctx_method_args ctx) + ctx_extra_margin ctx))))
       (ctx_method_args ctx) = Inr (margs, inds)"
    and len: "length amps = length inds"
    and peaks: "peaks = make_peaks k
               (a - fst (snd (get_chunk ev (num_channels (ctx_recording ctx))
                  (recording_segments (ctx_recording ctx) ! k) a b
                  (get_method_margin (ctx_method_args ctx) + ctx_extra_margin ctx))))
               (add_extra_margin (ctx_extra_margin ctx) inds) amps"
    by (rule detect_peaks_chunk_Inr)
  have "sorted_wrt peak_before inds" by (rule cpu_method_detect_peaks_sorted[OF m cpu])
  then have "sorted_wrt peak_before (add_extra_margin (ctx_extra_margin ctx) inds)"
    by (rule sorted_add_extra_margin)
  moreover have "length amps = length (add_extra_margin (ctx_extra_margin ctx) inds)"
    using len by (simp add: add_extra_margin_def)
  ultimately show ?thesis
    unfolding peaks by (simp add: map_peak_key_make_peaks sorted_map_shift)
qed

text \<open>
  The chunk \<open>[1, 6)\<close> of a segment of seven samples on two channels, neighbours of each
  other, with the same value 10 on both at sample 2 and a lone value 11 on channel 1 at
  sample 4.
\<close>

theorem cpu_chunk_output_order_witness:
  "detect_peaks_chunk \<lparr>have_numba = True, have_pyopencl = True, device_order = (\<lambda>n. [0..<n]),
       float_unit = exact_float_unit, get_chunk = get_chunk_with_margin\<rparr>
     0 1 6
     \<lparr>ctx_recording = \<lparr>sampling_frequency = 8000, num_channels = 2,
         recording_segments = [[[0,0],[0,0],[10,10],[0,0],[0,11],[0,0],[0,0]]],
         noise_levels_estimate = [1,1], channel_distances = [[0,20],[20,0]]\<rparr>,
      ctx_method_args = LocallyExclusiveArgs ''pos'' [5,5] 1 [[True,True],[True,True]],
      ctx_extra_margin = 0\<rparr>
   = Inr (\<lparr>ctx_recording = \<lparr>sampling_frequency = 8000, num_channels = 2,
         recording_segments = [[[0,0],[0,0],[10,10],[0,0],[0,11],[0,0],[0,0]]],
         noise_levels_estimate = [1,1], channel_distances = [[0,20],[20,0]]\<rparr>,
      ctx_method_args = LocallyExclusiveArgs ''pos'' [5,5] 1 [[True,True],[True,True]],
      ctx_extra_margin = 0\<rparr>,
      [\<lparr>sample_ind = 2, channel_ind = 0, amplitude = 10, segment_ind = 0\<rparr>,
       \<lparr>sample_ind = 2, channel_ind = 1, amplitude = 10, segment_ind = 0\<rparr>,
       \<lparr>sample_ind = 4, channel_ind = 1, amplitude = 11, segment_ind = 0\<rparr>]) \<and>
   \<not> uses_device (LocallyExclusiveArgs ''pos'' [5,5] 1 [[True,True],[True,True]]) \<and>
   sorted_wrt peak_before [(2::int, 0::nat), (2, 1), (4, 1)]"
proof -
  let ?ev = "\<lparr>have_numba = True, have_pyopencl = True, device_order = (\<lambda>n. [0..<n]),
       float_unit = exact_float_unit, get_chunk = get_chunk_with_margin\<rparr>"
  let ?ctx = "\<lparr>ctx_recording = \<lparr>sampling_frequency = 8000, num_channels = 2,
         recording_segments = [[[0,0],[0,0],[10,10],[0,0],[0,11],[0,0],[0,0::real]]],
         noise_levels_estimate = [1,1], channel_distances = [[0,20],[20,0]]\<rparr>,
      ctx_method_args = LocallyExclusiveArgs ''pos'' [5,5] 1 [[True,True],[True,True]],
      ctx_extra_margin = 0\<rparr>"
  let ?peaks = "[\<lparr>sample_ind = 2, channel_ind = 0, amplitude = 10, segment_ind = 0\<rparr>,
       \<lparr>sample_ind = 2, channel_ind = 1, amplitude = 10, segment_ind = 0\<rparr>,
       \<lparr>sample_ind = 4, channel_ind = 1, amplitude = 11, segment_ind = 0\<rparr>]"
  have run: "detect_peaks_chunk ?ev 0 1 6 ?ctx = Inr (?ctx, ?peaks)" by code_simp
  have cpu: "\<not> uses_device (ctx_method_args ?ctx)" by simp
  from cpu_chunk_output_order[OF run cpu]
  have "sorted_wrt peak_before [(2::int, 0::nat), (2, 1), (4, 1)]"
    by (simp add: peak_key_def)
  with run show ?thesis by simp
qed

text \<open>
  The same chunk with the OpenCL variant, on a device that runs work item 0 first and
  the other work items in descending order: the record of sample 4 comes before the
  records of sample 2.
\<close>

theorem opencl_chunk_output_order_counterexample:
  "detect_peaks_chunk \<lparr>have_numba = True, have_pyopencl = True,
       device_order = (\<lambda>n. if n = 0 then [] else 0 # rev [1..<n]),
       float_unit = exact_float_unit, get_chunk = get_chunk_with_margin\<rparr>
     0 1 6
     \<lparr>ctx_recording = \<lparr>sampling_frequency = 8000, num_channels = 2,
         recording_segments = [[[0,0],[0,0],[10,10],[0,0],[0,11],[0,0],[0,0]]],
         noise_levels_estimate = [1,1], channel_distances = [[0,20],[20,0]]\<rparr>,
      ctx_method_args = OpenCLArgs \<lparr>ex_abs_threholds = [5,5], ex_exclude_sweep_size = 1,
            ex_neighbours_mask = [[1,1],[1,1]], ex_peak_sign = ''pos'', ex_chunk_size = None,
            ex_kernel_peak_sign = 0\<rparr>,
      ctx_extra_margin = 0\<rparr>
   = Inr (\<lparr>ctx_recording = \<lparr>sampling_frequency = 8000, num_channels = 2,
         recording_segments = [[[0,0],[0,0],[10,10],[0,0],[0,11],[0,0],[0,0]]],
         noise_levels_estimate = [1,1], channel_distances = [[0,20],[20,0]]\<rparr>,
      ctx_method_args = OpenCLArgs \<lparr>ex_abs_threholds = [5,5], ex_exclude_sweep_size = 1,
            ex_neighbours_mask = [[1,1],[1,1]], ex_peak_sign = ''pos'', ex_chunk_size = Some 7,
            ex_kernel_peak_sign = 1\<rparr>,
      ctx_extra_margin = 0\<rparr>,
      [\<lparr>sample_ind = 4, channel_ind = 1, amplitude = 11, segment_ind = 0\<rparr>,
       \<lparr>sample_ind = 2, channel_ind = 0, amplitude = 10, segment_ind = 0\<rparr>,
       \<lparr>sample_ind = 2, channel_ind = 1, amplitude = 10, segment_ind = 0\<rparr>]) \<and>
   \<not> sorted_wrt peak_before [(4::int, 1::nat), (2, 0), (2, 1)]"
  by code_simp

subsection \<open>Chunk invariance\<close>




end
